theory Spec2Isabelle
  imports Complex_Main "HOL-Library.Char_ord" "HOL-Library.List_Lexorder"
begin

section \<open>Numbers\<close>

text \<open>
  The tensors of \<^verbatim>\<open>quasi_newton.py\<close> hold floating-point numbers. The model keeps the
  special values that the guards of the update functions test for (\<^verbatim>\<open>T.isinf\<close>, division by
  zero) and computes on finite values with exact real arithmetic: a value is a real number,
  plus or minus infinity, or not-a-number. Rounding, overflow of finite values and the sign of
  zero are not part of the model.
\<close>

datatype fl = Fin real | PInf | NInf | NaN

instantiation fl :: comm_monoid_add
begin

definition zero_fl :: fl where
  "zero_fl = Fin 0"

fun plus_fl :: "fl \<Rightarrow> fl \<Rightarrow> fl" where
  "plus_fl NaN y = NaN"
| "plus_fl x NaN = NaN"
| "plus_fl (Fin a) (Fin b) = Fin (a + b)"
| "plus_fl (Fin a) PInf = PInf"
| "plus_fl (Fin a) NInf = NInf"
| "plus_fl PInf (Fin b) = PInf"
| "plus_fl NInf (Fin b) = NInf"
| "plus_fl PInf PInf = PInf"
| "plus_fl NInf NInf = NInf"
| "plus_fl PInf NInf = NaN"
| "plus_fl NInf PInf = NaN"

instance
proof
  fix a b c :: fl
  show "a + b + c = a + (b + c)"
    by (cases a; cases b; cases c; simp)
  show "a + b = b + a"
    by (cases a; cases b; simp)
  show "0 + a = a"
    by (cases a; simp add: zero_fl_def)
qed

end

text \<open>The infinity of the sign of a real number; zero times infinity is not a number.\<close>

definition signed_inf :: "real \<Rightarrow> fl" where
  "signed_inf a = (if a = 0 then NaN else if 0 < a then PInf else NInf)"

text \<open>
  Division never raises: a finite non-zero value over zero is an infinity of its sign, zero
  over zero and infinity over infinity are not numbers.
\<close>

fun div_fl :: "fl \<Rightarrow> fl \<Rightarrow> fl" where
  "div_fl NaN y = NaN"
| "div_fl x NaN = NaN"
| "div_fl (Fin a) (Fin b) = (if b = 0 then signed_inf a else Fin (a / b))"
| "div_fl (Fin a) PInf = Fin 0"
| "div_fl (Fin a) NInf = Fin 0"
| "div_fl PInf (Fin b) = (if 0 \<le> b then PInf else NInf)"
| "div_fl NInf (Fin b) = (if 0 \<le> b then NInf else PInf)"
| "div_fl PInf PInf = NaN"
| "div_fl NInf NInf = NaN"
| "div_fl PInf NInf = NaN"
| "div_fl NInf PInf = NaN"

instantiation fl :: "{one, uminus, minus, times, inverse, abs, sgn}"
begin

definition one_fl :: fl where
  "one_fl = Fin 1"

fun uminus_fl :: "fl \<Rightarrow> fl" where
  "uminus_fl (Fin a) = Fin (- a)"
| "uminus_fl PInf = NInf"
| "uminus_fl NInf = PInf"
| "uminus_fl NaN = NaN"

definition minus_fl :: "fl \<Rightarrow> fl \<Rightarrow> fl" where
  "minus_fl x y = x + (- y)"

fun times_fl :: "fl \<Rightarrow> fl \<Rightarrow> fl" where
  "times_fl NaN y = NaN"
| "times_fl x NaN = NaN"
| "times_fl (Fin a) (Fin b) = Fin (a * b)"
| "times_fl (Fin a) PInf = signed_inf a"
| "times_fl (Fin a) NInf = signed_inf (- a)"
| "times_fl PInf (Fin b) = signed_inf b"
| "times_fl NInf (Fin b) = signed_inf (- b)"
| "times_fl PInf PInf = PInf"
| "times_fl NInf NInf = PInf"
| "times_fl PInf NInf = NInf"
| "times_fl NInf PInf = NInf"

definition inverse_fl :: "fl \<Rightarrow> fl" where
  "inverse_fl x = div_fl (Fin 1) x"

definition divide_fl :: "fl \<Rightarrow> fl \<Rightarrow> fl" where
  "divide_fl x y = div_fl x y"

fun abs_fl :: "fl \<Rightarrow> fl" where
  "abs_fl (Fin a) = Fin \<bar>a\<bar>"
| "abs_fl PInf = PInf"
| "abs_fl NInf = PInf"
| "abs_fl NaN = NaN"

fun sgn_fl :: "fl \<Rightarrow> fl" where
  "sgn_fl (Fin a) = Fin (sgn a)"
| "sgn_fl PInf = Fin 1"
| "sgn_fl NInf = Fin (- 1)"
| "sgn_fl NaN = NaN"

instance ..

end

declare zero_fl_def [simp] one_fl_def [simp] minus_fl_def [simp] divide_fl_def [simp]
  inverse_fl_def [simp]

text \<open>\<^verbatim>\<open>T.isinf\<close>: true on the two infinities only, false on not-a-number.\<close>

fun isinf :: "fl \<Rightarrow> bool" where
  "isinf PInf = True"
| "isinf NInf = True"
| "isinf x = False"

fun isfinite :: "fl \<Rightarrow> bool" where
  "isfinite (Fin a) = True"
| "isfinite x = False"

text \<open>\<^verbatim>\<open>T.lt\<close>: a comparison with not-a-number is false.\<close>

fun lt :: "fl \<Rightarrow> fl \<Rightarrow> bool" where
  "lt NaN y = False"
| "lt x NaN = False"
| "lt (Fin a) (Fin b) = (a < b)"
| "lt x PInf = (x \<noteq> PInf)"
| "lt NInf y = (y \<noteq> NInf)"
| "lt x y = False"

text \<open>The square root, as \<^verbatim>\<open>pow(x, 1.0 / 2)\<close> gives it.\<close>

fun sqrt_fl :: "fl \<Rightarrow> fl" where
  "sqrt_fl (Fin a) = (if a < 0 then NaN else Fin (sqrt a))"
| "sqrt_fl PInf = PInf"
| "sqrt_fl x = NaN"

text \<open>\<^verbatim>\<open>T.clip(x, lo, hi)\<close> on one entry; not-a-number passes through.\<close>

definition clip1 :: "fl \<Rightarrow> fl \<Rightarrow> fl \<Rightarrow> fl" where
  "clip1 x lo hi = (if lt x lo then lo else if lt hi x then hi else x)"

section \<open>Vectors and matrices\<close>

text \<open>A vector is the list of its entries, a matrix the list of its rows.\<close>

type_synonym vec = "fl list"
type_synonym mat = "fl list list"

definition is_matrix :: "nat \<Rightarrow> nat \<Rightarrow> mat \<Rightarrow> bool" where
  "is_matrix r c M = (length M = r \<and> list_all (\<lambda>row. length row = c) M)"

definition eye :: "nat \<Rightarrow> mat" where
  "eye n = map (\<lambda>i. map (\<lambda>j. if i = j then Fin 1 else Fin 0) [0..<n]) [0..<n]"

definition dot_vv :: "vec \<Rightarrow> vec \<Rightarrow> fl" where
  "dot_vv a b = sum_list (map2 (*) a b)"

definition dot_mv :: "mat \<Rightarrow> vec \<Rightarrow> vec" where
  "dot_mv M v = map (\<lambda>row. dot_vv row v) M"

definition column :: "mat \<Rightarrow> nat \<Rightarrow> vec" where
  "column M j = map (\<lambda>row. row ! j) M"

definition dot_mm :: "nat \<Rightarrow> mat \<Rightarrow> mat \<Rightarrow> mat" where
  "dot_mm n A B = map (\<lambda>row. map (\<lambda>j. dot_vv row (column B j)) [0..<n]) A"

definition outer :: "vec \<Rightarrow> vec \<Rightarrow> mat" where
  "outer a b = map (\<lambda>x. map (\<lambda>y. x * y) b) a"

definition vec_sub :: "vec \<Rightarrow> vec \<Rightarrow> vec" where
  "vec_sub a b = map2 (-) a b"

definition vec_add :: "vec \<Rightarrow> vec \<Rightarrow> vec" where
  "vec_add a b = map2 (+) a b"

definition vec_neg :: "vec \<Rightarrow> vec" where
  "vec_neg a = map uminus a"

definition scal_vec :: "fl \<Rightarrow> vec \<Rightarrow> vec" where
  "scal_vec c a = map (\<lambda>x. c * x) a"

definition mat_zip :: "(fl \<Rightarrow> fl \<Rightarrow> fl) \<Rightarrow> mat \<Rightarrow> mat \<Rightarrow> mat" where
  "mat_zip f A B = map2 (map2 f) A B"

definition mat_add :: "mat \<Rightarrow> mat \<Rightarrow> mat" where
  "mat_add = mat_zip (+)"

definition mat_sub :: "mat \<Rightarrow> mat \<Rightarrow> mat" where
  "mat_sub = mat_zip (-)"

definition mat_mul_elem :: "mat \<Rightarrow> mat \<Rightarrow> mat" where
  "mat_mul_elem = mat_zip (*)"

definition mat_map :: "(fl \<Rightarrow> fl) \<Rightarrow> mat \<Rightarrow> mat" where
  "mat_map f A = map (map f) A"

definition mat_times_scal :: "mat \<Rightarrow> fl \<Rightarrow> mat" where
  "mat_times_scal A c = mat_map (\<lambda>x. x * c) A"

definition scal_times_mat :: "fl \<Rightarrow> mat \<Rightarrow> mat" where
  "scal_times_mat c A = mat_map (\<lambda>x. c * x) A"

definition mat_div_scal :: "mat \<Rightarrow> fl \<Rightarrow> mat" where
  "mat_div_scal A c = mat_map (\<lambda>x. x / c) A"

definition clip :: "mat \<Rightarrow> fl \<Rightarrow> fl \<Rightarrow> mat" where
  "clip A lo hi = mat_map (\<lambda>x. clip1 x lo hi) A"

text \<open>\<^verbatim>\<open>x.norm(L=2)\<close>: the square root of the sum of the squared absolute values.\<close>

definition norm_L2 :: "vec \<Rightarrow> fl" where
  "norm_L2 v = sqrt_fl (sum_list (map (\<lambda>x. \<bar>x\<bar> * \<bar>x\<bar>) v))"

definition transpose_mat :: "nat \<Rightarrow> mat \<Rightarrow> mat" where
  "transpose_mat n M = map (\<lambda>j. column M j) [0..<n]"

definition symmetric :: "nat \<Rightarrow> mat \<Rightarrow> bool" where
  "symmetric n M = (is_matrix n n M \<and> transpose_mat n M = M)"

definition finite_vec :: "vec \<Rightarrow> bool" where
  "finite_vec v = list_all isfinite v"

definition finite_mat :: "mat \<Rightarrow> bool" where
  "finite_mat M = list_all finite_vec M"

section \<open>The four update functions\<close>

datatype error = ShapeMismatch | AttributeNameNotString | InvalidChoice | BelowMinimum

text \<open>
  The operations of each update function type-check only when the inverse Hessian is n by n
  and both deltas have n entries; otherwise evaluating the expression raises.
\<close>

definition conforming :: "mat \<Rightarrow> vec \<Rightarrow> vec \<Rightarrow> bool" where
  "conforming H s y = (is_matrix (length H) (length H) H \<and> length s = length H \<and> length y = length H)"

definition bfgs_rho :: "fl \<Rightarrow> vec \<Rightarrow> vec \<Rightarrow> fl" where
  "bfgs_rho maxrho weight_delta gradient_delta =
     (let rho = Fin 1 / dot_vv gradient_delta weight_delta
      in if isinf rho then maxrho * sgn rho else rho)"

definition bfgs :: "fl \<Rightarrow> mat \<Rightarrow> vec \<Rightarrow> vec \<Rightarrow> error + mat" where
  "bfgs maxrho inverse_hessian weight_delta gradient_delta =
     (if \<not> conforming inverse_hessian weight_delta gradient_delta then Inl ShapeMismatch
      else
        let n = length inverse_hessian;
            ident_matrix = eye n;
            rho = bfgs_rho maxrho weight_delta gradient_delta;
            param1 = mat_sub ident_matrix (mat_times_scal (outer weight_delta gradient_delta) rho);
            param2 = mat_sub ident_matrix (mat_times_scal (outer gradient_delta weight_delta) rho);
            param3 = scal_times_mat rho (outer weight_delta weight_delta)
        in Inr (mat_add (dot_mm n (dot_mm n param1 inverse_hessian) param2) param3))"

definition dfp :: "fl \<Rightarrow> mat \<Rightarrow> vec \<Rightarrow> vec \<Rightarrow> error + mat" where
  "dfp maxnum inverse_hessian weight_delta gradient_delta =
     (if \<not> conforming inverse_hessian weight_delta gradient_delta then Inl ShapeMismatch
      else
        let quasi_dot_gradient = dot_mv inverse_hessian gradient_delta;
            param1 = mat_div_scal (outer weight_delta weight_delta)
                       (dot_vv gradient_delta weight_delta);
            param2_numerator =
              clip (mat_mul_elem (outer quasi_dot_gradient gradient_delta) inverse_hessian)
                (- maxnum) maxnum;
            param2_denominator = dot_vv gradient_delta quasi_dot_gradient;
            param2 = mat_div_scal param2_numerator param2_denominator
        in Inr (mat_sub (mat_add inverse_hessian param1) param2))"

definition psb :: "mat \<Rightarrow> vec \<Rightarrow> vec \<Rightarrow> error + mat" where
  "psb inverse_hessian weight_delta gradient_delta =
     (if \<not> conforming inverse_hessian weight_delta gradient_delta then Inl ShapeMismatch
      else
        let gradient_delta_t = gradient_delta;
            param = vec_sub weight_delta (dot_mv inverse_hessian gradient_delta);
            devider = Fin 1 / dot_vv gradient_delta gradient_delta;
            param1 = mat_add (outer param gradient_delta) (outer gradient_delta param);
            param2 = scal_times_mat (dot_vv gradient_delta param)
                       (outer gradient_delta gradient_delta_t)
        in Inr (mat_sub (mat_add inverse_hessian (mat_times_scal param1 devider))
                  (mat_times_scal param2 (devider * devider))))"

definition sr1 :: "fl \<Rightarrow> mat \<Rightarrow> vec \<Rightarrow> vec \<Rightarrow> error + mat" where
  "sr1 epsilon inverse_hessian weight_delta gradient_delta =
     (if \<not> conforming inverse_hessian weight_delta gradient_delta then Inl ShapeMismatch
      else
        let param = vec_sub weight_delta (dot_mv inverse_hessian gradient_delta);
            denominator = dot_vv param gradient_delta
        in if lt \<bar>denominator\<bar> (epsilon * norm_L2 param * norm_L2 gradient_delta)
           then Inr inverse_hessian
           else Inr (mat_add inverse_hessian (mat_div_scal (outer param param) denominator)))"

text \<open>The default values of the keyword arguments.\<close>

definition default_maxrho :: fl where
  "default_maxrho = Fin 10000"

definition default_maxnum :: fl where
  "default_maxnum = Fin 100000"

definition default_epsilon :: fl where
  "default_epsilon = Fin (1 / 100000000)"

section \<open>Layers and their parameters\<close>

text \<open>
  A parameter is a shared variable: an object with an identity (here a number) and a stored
  tensor. An attribute of a layer holds a shared variable, an expression of the graph, or
  something else. \<^verbatim>\<open>member_value is parameter\<close> compares identities.
\<close>

record tensor =
  shape :: "nat list"
  entries :: vec

datatype attr = Shared nat | Expression tensor | Other

text \<open>
  A layer: the names \<^verbatim>\<open>inspect.getmembers\<close> lists, in its (sorted) order, the value of each
  attribute, and the list \<^verbatim>\<open>layer.parameters\<close>.
\<close>

record layer =
  member_names :: "string list"
  attrs :: "string \<rightharpoonup> attr"
  parameters :: "nat list"

definition getmembers :: "layer \<Rightarrow> (string \<times> attr) list" where
  "getmembers l = List.map_filter (\<lambda>n. map_option (Pair n) (attrs l n)) (member_names l)"

fun find_member :: "(string \<times> attr) list \<Rightarrow> nat \<Rightarrow> string option" where
  "find_member [] parameter = None"
| "find_member ((member_name, member_value) # members) parameter =
     (if member_value = Shared parameter then Some member_name
      else find_member members parameter)"

definition find_param_name :: "layer \<Rightarrow> nat \<Rightarrow> string option" where
  "find_param_name l parameter = find_member (getmembers l) parameter"

text \<open>
  The triples \<^verbatim>\<open>(layer, attrname, parameter)\<close>; the layer object is referred to by its
  position in the list of layers.
\<close>

definition iter_layers_and_parameters :: "layer list \<Rightarrow> (nat \<times> string option \<times> nat) list" where
  "iter_layers_and_parameters ls =
     concat (map (\<lambda>i. map (\<lambda>parameter. (i, find_param_name (ls ! i) parameter, parameter))
                         (parameters (ls ! i)))
                 [0..<length ls])"

text \<open>\<^verbatim>\<open>setattr\<close> raises a \<^verbatim>\<open>TypeError\<close> when the attribute name is \<^verbatim>\<open>None\<close>.\<close>

definition setattr :: "layer \<Rightarrow> string option \<Rightarrow> attr \<Rightarrow> error + layer" where
  "setattr l attrname v =
     (case attrname of
        None \<Rightarrow> Inl AttributeNameNotString
      | Some n \<Rightarrow>
          Inr (l\<lparr>member_names :=
                     (if n \<in> set (member_names l) then member_names l
                      else insort n (member_names l)),
                   attrs := (attrs l)(n \<mapsto> v)\<rparr>))"

definition setattr_at :: "layer list \<Rightarrow> nat \<Rightarrow> string option \<Rightarrow> attr \<Rightarrow> error + layer list" where
  "setattr_at ls i attrname v =
     (case setattr (ls ! i) attrname v of Inl e \<Rightarrow> Inl e | Inr l \<Rightarrow> Inr (ls[i := l]))"

section \<open>The collaborators\<close>

text \<open>
  What \<^verbatim>\<open>init_train_updates\<close> takes from outside this file: the output of the network on
  the current input as a function of the layers' attributes, the error of an output against
  the expected output, the gradients of the error with respect to the parameters and with
  respect to the step, and the line search.
\<close>

record env =
  net_output :: "layer list \<Rightarrow> vec"
  error_func :: "vec \<Rightarrow> fl"
  grad_wrt_params :: "tensor list \<Rightarrow> tensor list"
  grad_wrt_step :: "(fl \<Rightarrow> error + fl) \<Rightarrow> fl \<Rightarrow> fl"
  line_search :: "(fl \<Rightarrow> error + fl) \<Rightarrow> (fl \<Rightarrow> error + fl) \<Rightarrow> error + fl"

section \<open>The optimizer\<close>

type_synonym update_fn = "mat \<Rightarrow> vec \<Rightarrow> vec \<Rightarrow> error + mat"

record network =
  layers :: "layer list"
  shared :: "nat \<Rightarrow> tensor"
  inv_hessian :: mat
  prev_params :: vec
  prev_full_gradient :: vec
  epoch :: nat

text \<open>
  Modelled from the spec: \<^verbatim>\<open>iter_parameters\<close>, \<^verbatim>\<open>parameters2vector\<close> and
  \<^verbatim>\<open>setup_parameter_updates\<close> of \<^verbatim>\<open>neupy.algorithms.utils\<close> are not in the source
  at hand. The spec's vectorization layer flattens each parameter tensor in a fixed order
  and concatenates, and restores the tensors by slicing the vector at the offsets of that
  order and reshaping.
\<close>

definition iter_parameters :: "network \<Rightarrow> nat list" where
  "iter_parameters net = concat (map parameters (layers net))"

definition parameters2vector :: "network \<Rightarrow> vec" where
  "parameters2vector net = concat (map (\<lambda>p. entries (shared net p)) (iter_parameters net))"

fun setup_parameter_updates :: "(nat \<Rightarrow> tensor) \<Rightarrow> nat list \<Rightarrow> vec \<Rightarrow> (nat \<times> tensor) list" where
  "setup_parameter_updates sh [] v = []"
| "setup_parameter_updates sh (p # ps) v =
     (p, \<lparr>shape = shape (sh p), entries = take (length (entries (sh p))) v\<rparr>)
       # setup_parameter_updates sh ps (drop (length (entries (sh p))) v)"

definition init_variables :: "real \<Rightarrow> network \<Rightarrow> network" where
  "init_variables h0_scale net =
     (let n_params = sum_list (map (\<lambda>p. length (entries (shared net p))) (iter_parameters net))
      in net\<lparr>inv_hessian := scal_times_mat (Fin h0_scale) (eye n_params),
              prev_params := replicate n_params (Fin 0),
              prev_full_gradient := replicate n_params (Fin 0)\<rparr>)"

subsection \<open>The trial evaluation\<close>

text \<open>
  The first loop of \<^verbatim>\<open>prediction\<close>: every attribute that holds a parameter is set to the
  slice of the trial vector that belongs to the parameter, reshaped. The expression is
  symbolic, so nothing is checked here; the shapes are checked where the graph is evaluated.
\<close>

fun substitute :: "(nat \<Rightarrow> tensor) \<Rightarrow> vec \<Rightarrow> (nat \<times> string option \<times> nat) list \<Rightarrow> nat \<Rightarrow>
    layer list \<Rightarrow> error + layer list" where
  "substitute sh updated_params [] start_pos ls = Inr ls"
| "substitute sh updated_params ((layer, attrname, param) # rest) start_pos ls =
     (let end_pos = start_pos + length (entries (sh param));
          updated_param_value =
            \<lparr>shape = shape (sh param),
             entries = take (end_pos - start_pos) (drop start_pos updated_params)\<rparr>
      in case setattr_at ls layer attrname (Expression updated_param_value) of
           Inl e \<Rightarrow> Inl e
         | Inr ls' \<Rightarrow> substitute sh updated_params rest end_pos ls')"

text \<open>The second loop: every such attribute is set back to the shared variable.\<close>

fun restore :: "(nat \<times> string option \<times> nat) list \<Rightarrow> layer list \<Rightarrow> error + layer list" where
  "restore [] ls = Inr ls"
| "restore ((layer, attrname, param) # rest) ls =
     (case setattr_at ls layer attrname (Shared param) of
        Inl e \<Rightarrow> Inl e
      | Inr ls' \<Rightarrow> restore rest ls')"

text \<open>\<^verbatim>\<open>prediction\<close> returns the output together with the layers as it leaves them.\<close>

definition prediction :: "env \<Rightarrow> (nat \<Rightarrow> tensor) \<Rightarrow> (nat \<times> string option \<times> nat) list \<Rightarrow> vec \<Rightarrow> vec \<Rightarrow>
    layer list \<Rightarrow> fl \<Rightarrow> error + (vec \<times> layer list)" where
  "prediction e sh layers_and_parameters param_vector param_delta ls step =
     (let updated_params = vec_add param_vector (scal_vec step param_delta)
      in case substitute sh updated_params layers_and_parameters 0 ls of
           Inl err \<Rightarrow> Inl err
         | Inr ls1 \<Rightarrow>
             (let output = net_output e ls1
              in case restore layers_and_parameters ls1 of
                   Inl err \<Rightarrow> Inl err
                 | Inr ls2 \<Rightarrow> Inr (output, ls2)))"

definition phi :: "env \<Rightarrow> (nat \<Rightarrow> tensor) \<Rightarrow> (nat \<times> string option \<times> nat) list \<Rightarrow> vec \<Rightarrow> vec \<Rightarrow>
    layer list \<Rightarrow> fl \<Rightarrow> error + fl" where
  "phi e sh layers_and_parameters param_vector param_delta ls step =
     (case prediction e sh layers_and_parameters param_vector param_delta ls step of
        Inl err \<Rightarrow> Inl err
      | Inr (output, ls') \<Rightarrow> Inr (error_func e output))"

definition derphi :: "env \<Rightarrow> (nat \<Rightarrow> tensor) \<Rightarrow> (nat \<times> string option \<times> nat) list \<Rightarrow> vec \<Rightarrow> vec \<Rightarrow>
    layer list \<Rightarrow> fl \<Rightarrow> error + fl" where
  "derphi e sh layers_and_parameters param_vector param_delta ls step =
     (case prediction e sh layers_and_parameters param_vector param_delta ls step of
        Inl err \<Rightarrow> Inl err
      | Inr (output, ls') \<Rightarrow>
          Inr (grad_wrt_step e (phi e sh layers_and_parameters param_vector param_delta ls) step))"

subsection \<open>One iteration\<close>

text \<open>
  The updates \<^verbatim>\<open>init_train_updates\<close> returns: a new tensor for each parameter, and the
  new values of the three variables of the optimizer.
\<close>

record updates =
  param_updates :: "(nat \<times> tensor) list"
  upd_inv_hessian :: mat
  upd_prev_params :: vec
  upd_prev_full_gradient :: vec

text \<open>
  The operations on the vectors raise when the shapes do not agree: the deltas are formed
  only when the epoch is not 1 (\<^verbatim>\<open>ifelse\<close> evaluates the chosen branch only), the product
  with the gradient and the sum with the parameter vector in every epoch.
\<close>

definition init_train_updates :: "env \<Rightarrow> update_fn \<Rightarrow> network \<Rightarrow> error + updates" where
  "init_train_updates e update_function net =
     (let params = iter_parameters net;
          param_vector = parameters2vector net;
          gradients = grad_wrt_params e (map (shared net) params);
          full_gradient = concat (map entries gradients);
          n = length param_vector
      in case (if epoch net = 1 then Inr (inv_hessian net)
               else if length (prev_params net) \<noteq> n
                       \<or> length (prev_full_gradient net) \<noteq> length full_gradient
                    then Inl ShapeMismatch
               else update_function (inv_hessian net)
                      (vec_sub param_vector (prev_params net))
                      (vec_sub full_gradient (prev_full_gradient net))) of
           Inl err \<Rightarrow> Inl err
         | Inr new_inv_hessian \<Rightarrow>
             if \<not> is_matrix n (length full_gradient) new_inv_hessian then Inl ShapeMismatch
             else
               (let param_delta = vec_neg (dot_mv new_inv_hessian full_gradient);
                    layers_and_parameters = iter_layers_and_parameters (layers net)
                in case line_search e
                          (phi e (shared net) layers_and_parameters param_vector param_delta
                             (layers net))
                          (derphi e (shared net) layers_and_parameters param_vector param_delta
                             (layers net)) of
                     Inl err \<Rightarrow> Inl err
                   | Inr step \<Rightarrow>
                       (let updated_params = vec_add param_vector (scal_vec step param_delta)
                        in Inr \<lparr>param_updates =
                                  setup_parameter_updates (shared net) params updated_params,
                                upd_inv_hessian = new_inv_hessian,
                                upd_prev_params = param_vector,
                                upd_prev_full_gradient = full_gradient\<rparr>)))"

text \<open>
  Modelled from the spec: the training loop that applies the updates is not in the source at
  hand. The spec commits the new parameter tensors and the new state as one replacement.
\<close>

definition set_value :: "nat \<times> tensor \<Rightarrow> (nat \<Rightarrow> tensor) \<Rightarrow> nat \<Rightarrow> tensor" where
  "set_value u sh = sh(fst u := snd u)"

definition apply_updates :: "updates \<Rightarrow> network \<Rightarrow> network" where
  "apply_updates u net =
     net\<lparr>shared := fold set_value (param_updates u) (shared net),
         inv_hessian := upd_inv_hessian u,
         prev_params := upd_prev_params u,
         prev_full_gradient := upd_prev_full_gradient u\<rparr>"

definition train_epoch :: "env \<Rightarrow> update_fn \<Rightarrow> network \<Rightarrow> error + network" where
  "train_epoch e update_function net =
     (case init_train_updates e update_function net of
        Inl err \<Rightarrow> Inl err
      | Inr u \<Rightarrow> Inr (apply_updates u net))"

section \<open>The options\<close>

text \<open>The choices and defaults of the two properties of \<^verbatim>\<open>QuasiNewton\<close>.\<close>

definition update_function_choices :: "(string \<times> update_fn) list" where
  "update_function_choices =
     [(''bfgs'', bfgs default_maxrho), (''dfp'', dfp default_maxnum), (''psb'', psb),
      (''sr1'', sr1 default_epsilon)]"

definition update_function_default :: string where
  "update_function_default = ''bfgs''"

definition h0_scale_default :: real where
  "h0_scale_default = 1"

definition h0_scale_minval :: real where
  "h0_scale_minval = 0"

text \<open>
  Modelled from the spec: \<^verbatim>\<open>ChoiceProperty\<close> and \<^verbatim>\<open>NumberProperty\<close> of
  \<^verbatim>\<open>neupy.core.properties\<close> are not in the source at hand. The spec has the update function
  be one of the choices and the scale be non-negative, and has a configuration outside them
  fail when the optimizer is configured.
\<close>

definition choice_property :: "(string \<times> 'a) list \<Rightarrow> string \<Rightarrow> string option \<Rightarrow> error + string" where
  "choice_property choices dflt given =
     (case given of
        None \<Rightarrow> Inr dflt
      | Some v \<Rightarrow> if v \<in> set (map fst choices) then Inr v else Inl InvalidChoice)"

definition number_property :: "real \<Rightarrow> real \<Rightarrow> real option \<Rightarrow> error + real" where
  "number_property minval dflt given =
     (case given of
        None \<Rightarrow> Inr dflt
      | Some v \<Rightarrow> if v < minval then Inl BelowMinimum else Inr v)"

record options =
  update_function :: string
  h0_scale :: real

definition configure :: "string option \<Rightarrow> real option \<Rightarrow> error + options" where
  "configure given_update_function given_h0_scale =
     (case choice_property update_function_choices update_function_default
             given_update_function of
        Inl err \<Rightarrow> Inl err
      | Inr name \<Rightarrow>
          (case number_property h0_scale_minval h0_scale_default given_h0_scale of
             Inl err \<Rightarrow> Inl err
           | Inr scale \<Rightarrow> Inr \<lparr>update_function = name, h0_scale = scale\<rparr>))"

text \<open>
  Modelled from the spec: a training run configures the optimizer, initialises its variables
  with the epoch counter at 1, and then runs the iterations, the counter growing by one each.
  The list records the state after each iteration that ran.
\<close>

fun train_epochs :: "env \<Rightarrow> update_fn \<Rightarrow> nat \<Rightarrow> network \<Rightarrow> network list \<Rightarrow> error + network list" where
  "train_epochs e f 0 net done = Inr done"
| "train_epochs e f (Suc k) net done =
     (case train_epoch e f net of
        Inl err \<Rightarrow> Inl err
      | Inr net' \<Rightarrow> train_epochs e f k (net'\<lparr>epoch := epoch net' + 1\<rparr>) (done @ [net']))"

definition train :: "string option \<Rightarrow> real option \<Rightarrow> env \<Rightarrow> network \<Rightarrow> nat \<Rightarrow> error + network list" where
  "train given_update_function given_h0_scale e net epochs =
     (case configure given_update_function given_h0_scale of
        Inl err \<Rightarrow> Inl err
      | Inr opts \<Rightarrow>
          (case map_of update_function_choices (update_function opts) of
             None \<Rightarrow> Inl InvalidChoice
           | Some f \<Rightarrow>
               train_epochs e f epochs
                 (init_variables (h0_scale opts) (net\<lparr>epoch := 1\<rparr>)) []))"

section \<open>The formulas of the specification\<close>

text \<open>
  The BFGS update as the specification writes it, for a given \<open>\<rho>\<close>:
  \<open>(I - \<rho> \<cdot> s \<otimes> y) \<cdot> H \<cdot> (I - \<rho> \<cdot> y \<otimes> s) + \<rho> \<cdot> (s \<otimes> s)\<close>.
\<close>

definition bfgs_formula :: "fl \<Rightarrow> mat \<Rightarrow> vec \<Rightarrow> vec \<Rightarrow> mat" where
  "bfgs_formula \<rho> H s y =
     (let n = length H
      in mat_add
           (dot_mm n (dot_mm n (mat_sub (eye n) (scal_times_mat \<rho> (outer s y))) H)
              (mat_sub (eye n) (scal_times_mat \<rho> (outer y s))))
           (scal_times_mat \<rho> (outer s s)))"

text \<open>The Euclidean norm as the square root of the product of a vector with itself.\<close>

definition norm2 :: "vec \<Rightarrow> fl" where
  "norm2 v = sqrt_fl (dot_vv v v)"

text \<open>
  The SR1 update as the specification writes it: with \<open>r = s - H y\<close> and the denominator
  \<open>r\<^sup>T y\<close>, the matrix is unchanged when the denominator is small and
  \<open>H + (r \<otimes> r) / denom\<close> otherwise.
\<close>

definition sr1_residual :: "mat \<Rightarrow> vec \<Rightarrow> vec \<Rightarrow> vec" where
  "sr1_residual H s y = vec_sub s (dot_mv H y)"

definition sr1_skips :: "fl \<Rightarrow> mat \<Rightarrow> vec \<Rightarrow> vec \<Rightarrow> bool" where
  "sr1_skips \<epsilon> H s y =
     lt \<bar>dot_vv (sr1_residual H s y) y\<bar> (\<epsilon> * norm2 (sr1_residual H s y) * norm2 y)"


text \<open>The numerator of the second term of the DFP update, before and after the clipping.\<close>

definition dfp_numerator :: "mat \<Rightarrow> vec \<Rightarrow> mat" where
  "dfp_numerator H y = mat_mul_elem (outer (dot_mv H y) y) H"

definition clipped_to :: "real \<Rightarrow> fl \<Rightarrow> bool" where
  "clipped_to m x = (case x of Fin r \<Rightarrow> (- m \<le> r \<and> r \<le> m) | NaN \<Rightarrow> True | _ \<Rightarrow> False)"

section \<open>Names for the statements\<close>

text \<open>
  The gradient vector and the call of the line search, as \<^verbatim>\<open>init_train_updates\<close> forms
  them for a given new inverse Hessian.
\<close>

definition full_gradient :: "env \<Rightarrow> network \<Rightarrow> vec" where
  "full_gradient e net =
     concat (map entries (grad_wrt_params e (map (shared net) (iter_parameters net))))"

definition chosen_step :: "env \<Rightarrow> network \<Rightarrow> mat \<Rightarrow> error + fl" where
  "chosen_step e net new_inv_hessian =
     (let param_vector = parameters2vector net;
          param_delta = vec_neg (dot_mv new_inv_hessian (full_gradient e net));
          layers_and_parameters = iter_layers_and_parameters (layers net)
      in line_search e
           (phi e (shared net) layers_and_parameters param_vector param_delta (layers net))
           (derphi e (shared net) layers_and_parameters param_vector param_delta (layers net)))"

text \<open>
  Every parameter of every layer is found among the attributes of its layer: no attribute
  name of \<^verbatim>\<open>iter_layers_and_parameters\<close> is \<^verbatim>\<open>None\<close>.
\<close>

definition all_found :: "layer list \<Rightarrow> bool" where
  "all_found ls = list_all (\<lambda>(i, a, p). a \<noteq> None) (iter_layers_and_parameters ls)"

text \<open>
  The triples name attributes that exist, and the attributes they name: used to follow the
  two loops of \<^verbatim>\<open>prediction\<close>.
\<close>

definition names_exist :: "layer list \<Rightarrow> (nat \<times> string option \<times> nat) list \<Rightarrow> bool" where
  "names_exist ls ts =
     (\<forall>(i, a, p) \<in> set ts. \<exists>n. a = Some n \<and> i < length ls \<and> n \<in> set (member_names (ls ! i)))"

definition touched :: "(nat \<times> string option \<times> nat) list \<Rightarrow> (nat \<times> string) set" where
  "touched ts = {(i, n). \<exists>p. (i, Some n, p) \<in> set ts}"

definition same_frame :: "layer list \<Rightarrow> layer list \<Rightarrow> bool" where
  "same_frame ls ls' =
     (length ls' = length ls \<and>
      (\<forall>i < length ls. member_names (ls' ! i) = member_names (ls ! i) \<and>
                        parameters (ls' ! i) = parameters (ls ! i)))"

text \<open>The real number of a finite value.\<close>

definition re :: "fl \<Rightarrow> real" where
  "re x = (case x of Fin r \<Rightarrow> r | _ \<Rightarrow> 0)"

section \<open>A small network\<close>

text \<open>
  One layer with a weight of two entries and a bias of one: three scalar parameters. The
  output of the network is whatever the weight attribute holds, the error is the sum of its
  squares, the gradient is (4, 5, 6), and the line search returns the step 1.
\<close>

definition example_layer :: layer where
  "example_layer =
     \<lparr>member_names = [''bias'', ''weight''],
      attrs = [''bias'' \<mapsto> Shared 1, ''weight'' \<mapsto> Shared 0],
      parameters = [0, 1]\<rparr>"

definition example_shared :: "nat \<Rightarrow> tensor" where
  "example_shared p =
     (if p = 0 then \<lparr>shape = [2], entries = [Fin 1, Fin 2]\<rparr>
      else \<lparr>shape = [1], entries = [Fin 3]\<rparr>)"

definition example_output :: "layer list \<Rightarrow> vec" where
  "example_output ls =
     (case ls of
        [] \<Rightarrow> []
      | l # rest \<Rightarrow>
          (case attrs l ''weight'' of
             Some (Expression t) \<Rightarrow> entries t
           | Some (Shared p) \<Rightarrow> entries (example_shared p)
           | _ \<Rightarrow> []))"

definition example_env :: env where
  "example_env =
     \<lparr>net_output = example_output,
      error_func = (\<lambda>output. dot_vv output output),
      grad_wrt_params =
        (\<lambda>ts. [\<lparr>shape = [2], entries = [Fin 4, Fin 5]\<rparr>, \<lparr>shape = [1], entries = [Fin 6]\<rparr>]),
      grad_wrt_step = (\<lambda>f step. Fin 0),
      line_search = (\<lambda>f g. Inr (Fin 1))\<rparr>"

definition example_network :: network where
  "example_network =
     \<lparr>layers = [example_layer],
      shared = example_shared,
      inv_hessian = [],
      prev_params = [],
      prev_full_gradient = [],
      epoch = 1\<rparr>"

section \<open>The symmetry of the updated matrix\<close>

text \<open>
  Claim C1: each of the four update functions returns a symmetric matrix when the inverse
  Hessian it is given is symmetric. \<^verbatim>\<open>dfp\<close> does not: it multiplies the outer product of
  \<^verbatim>\<open>H y\<close> and \<^verbatim>\<open>y\<close> with \<^verbatim>\<open>H\<close> entry by entry. On the symmetric positive definite matrix
  with rows (2, 1) and (1, 2), with both deltas (1, 0), it returns the matrix with rows
  (1, 1) and (1/2, 2).
\<close>

theorem dfp_not_symmetric:
  "symmetric 2 [[Fin 2, Fin 1], [Fin 1, Fin 2]] \<and>
   dfp default_maxnum [[Fin 2, Fin 1], [Fin 1, Fin 2]] [Fin 1, Fin 0] [Fin 1, Fin 0]
     = Inr [[Fin 1, Fin 1], [Fin (1 / 2), Fin 2]] \<and>
   \<not> symmetric 2 [[Fin 1, Fin 1], [Fin (1 / 2), Fin 2]]"
  by code_simp

section \<open>Facts on the vectors and the updates\<close>

lemma one_times_fl [simp]: "Fin 1 * (x::fl) = x"
  by (cases x) (simp_all add: signed_inf_def)

lemma zero_times_finite: "isfinite x \<Longrightarrow> Fin 0 * x = Fin 0"
  by (cases x) simp_all








lemma length_parameters2vector:
  "length (parameters2vector net)
     = sum_list (map (\<lambda>p. length (entries (shared net p))) (iter_parameters net))"
  by (simp add: parameters2vector_def length_concat comp_def)

lemma length_dot_mv [simp]: "length (dot_mv M v) = length M"
  by (simp add: dot_mv_def)

lemma length_vec_ops [simp]:
  "length (vec_neg a) = length a" "length (scal_vec c a) = length a"
  "length (vec_add a b) = min (length a) (length b)"
  "length (vec_sub a b) = min (length a) (length b)"
  by (simp_all add: vec_neg_def scal_vec_def vec_add_def vec_sub_def)

lemma iter_parameters_apply [simp]:
  "iter_parameters (apply_updates u net) = iter_parameters net"
  by (simp add: iter_parameters_def apply_updates_def)



lemma init_train_updates_epoch1:
  "epoch net = 1 \<Longrightarrow>
   init_train_updates e f net =
     (if \<not> is_matrix (length (parameters2vector net)) (length (full_gradient e net))
             (inv_hessian net)
      then Inl ShapeMismatch
      else case chosen_step e net (inv_hessian net) of
             Inl err \<Rightarrow> Inl err
           | Inr step \<Rightarrow>
               Inr \<lparr>param_updates =
                      setup_parameter_updates (shared net) (iter_parameters net)
                        (vec_add (parameters2vector net)
                           (scal_vec step
                              (vec_neg (dot_mv (inv_hessian net) (full_gradient e net))))),
                    upd_inv_hessian = inv_hessian net,
                    upd_prev_params = parameters2vector net,
                    upd_prev_full_gradient = full_gradient e net\<rparr>)"
  by (auto simp: init_train_updates_def chosen_step_def full_gradient_def Let_def
      split: sum.splits)

lemma is_matrix_eye: "is_matrix n n (eye n)"
  by (simp add: is_matrix_def eye_def list_all_iff)

section \<open>One iteration of the optimizer\<close>



text \<open>
  Claim C5: on epoch 1 the update function is not invoked: the updates are the same whatever
  the update function is, the new inverse Hessian is the stored one, it is the value that is
  persisted, and the new parameters are formed from the direction of the stored inverse
  Hessian. When the epoch is not 1 the new inverse Hessian is the result of the update
  function on the stored one and the two deltas. After the variables are initialised with
  scale \<open>h\<close>, the inverse Hessian persisted by the first iteration is \<open>h\<close> times the identity.
\<close>

theorem epoch1_skips_update:
  "(epoch net = 1 \<longrightarrow>
      init_train_updates e f net = init_train_updates e f' net \<and>
      (\<forall>u. init_train_updates e f net = Inr u \<longrightarrow>
         upd_inv_hessian u = inv_hessian net \<and>
         inv_hessian (apply_updates u net) = inv_hessian net \<and>
         (\<exists>step. chosen_step e net (inv_hessian net) = Inr step \<and>
            param_updates u =
              setup_parameter_updates (shared net) (iter_parameters net)
                (vec_add (parameters2vector net)
                   (scal_vec step
                      (vec_neg (dot_mv (inv_hessian net) (full_gradient e net)))))))) \<and>
   (epoch net \<noteq> 1 \<longrightarrow>
      (\<forall>u. init_train_updates e f net = Inr u \<longrightarrow>
         f (inv_hessian net) (vec_sub (parameters2vector net) (prev_params net))
           (vec_sub (full_gradient e net) (prev_full_gradient net))
           = Inr (upd_inv_hessian u))) \<and>
   (\<forall>net'. train_epoch e f (init_variables h (net\<lparr>epoch := 1\<rparr>)) = Inr net' \<longrightarrow>
      inv_hessian net' = scal_times_mat (Fin h) (eye (length (parameters2vector net))))"
proof (intro conjI impI allI)
  assume e1: "epoch net = 1"
  show "init_train_updates e f net = init_train_updates e f' net"
    by (simp add: init_train_updates_epoch1 [OF e1])
  fix u assume u: "init_train_updates e f net = Inr u"
  then show "upd_inv_hessian u = inv_hessian net"
    by (auto simp: init_train_updates_epoch1 [OF e1] split: if_splits sum.splits)
  then show "inv_hessian (apply_updates u net) = inv_hessian net"
    by (simp add: apply_updates_def)
  show "\<exists>step. chosen_step e net (inv_hessian net) = Inr step \<and>
            param_updates u =
              setup_parameter_updates (shared net) (iter_parameters net)
                (vec_add (parameters2vector net)
                   (scal_vec step
                      (vec_neg (dot_mv (inv_hessian net) (full_gradient e net)))))"
    using u by (auto simp: init_train_updates_epoch1 [OF e1] split: if_splits sum.splits)
next
  fix u assume "epoch net \<noteq> 1" and "init_train_updates e f net = Inr u"
  then show "f (inv_hessian net) (vec_sub (parameters2vector net) (prev_params net))
           (vec_sub (full_gradient e net) (prev_full_gradient net))
           = Inr (upd_inv_hessian u)"
    by (auto simp: init_train_updates_def full_gradient_def Let_def split: if_splits sum.splits)
next
  fix net' assume t: "train_epoch e f (init_variables h (net\<lparr>epoch := 1\<rparr>)) = Inr net'"
  let ?n = "init_variables h (net\<lparr>epoch := 1\<rparr>)"
  have e1: "epoch ?n = 1" by (simp add: init_variables_def Let_def)
  have H: "inv_hessian ?n = scal_times_mat (Fin h) (eye (length (parameters2vector net)))"
    by (simp add: init_variables_def Let_def length_parameters2vector iter_parameters_def)
  from t obtain u where u: "init_train_updates e f ?n = Inr u" "net' = apply_updates u ?n"
    by (auto simp: train_epoch_def split: sum.splits)
  have "upd_inv_hessian u = inv_hessian ?n"
    using u(1) unfolding init_train_updates_epoch1 [OF e1]
    by (auto split: if_splits sum.splits)
  then show "inv_hessian net' = scal_times_mat (Fin h) (eye (length (parameters2vector net)))"
    using H u(2) by (simp add: apply_updates_def)
qed

theorem epoch1_skips_update_witness:
  "epoch (init_variables 1 example_network) = 1 \<and>
   init_train_updates example_env psb (init_variables 1 example_network)
     = init_train_updates example_env (dfp default_maxnum) (init_variables 1 example_network) \<and>
   (\<exists>net'. train_epoch example_env psb (init_variables 1 (example_network\<lparr>epoch := 1\<rparr>)) = Inr net' \<and>
      inv_hessian net' = eye 3) \<and>
   epoch (example_network\<lparr>inv_hessian := eye 3,
            prev_params := [Fin 0, Fin 0, Fin 0], prev_full_gradient := [Fin 0, Fin 0, Fin 0],
            epoch := 2\<rparr>) \<noteq> 1 \<and>
   (\<exists>u. init_train_updates example_env psb (example_network\<lparr>inv_hessian := eye 3,
            prev_params := [Fin 0, Fin 0, Fin 0], prev_full_gradient := [Fin 0, Fin 0, Fin 0],
            epoch := 2\<rparr>) = Inr u \<and>
        psb (eye 3) [Fin 1, Fin 2, Fin 3] [Fin 4, Fin 5, Fin 6] = Inr (upd_inv_hessian u))"
proof -
  let ?n1 = "init_variables 1 example_network"
  let ?n2 = "example_network\<lparr>inv_hessian := eye 3,
            prev_params := [Fin 0, Fin 0, Fin 0], prev_full_gradient := [Fin 0, Fin 0, Fin 0],
            epoch := 2\<rparr>"
  have e1: "epoch ?n1 = 1" by code_simp
  have e2: "epoch ?n2 \<noteq> 1" by code_simp
  have t: "\<exists>net'. train_epoch example_env psb (init_variables 1 (example_network\<lparr>epoch := 1\<rparr>)) = Inr net'"
    by (simp add: train_epoch_def init_train_updates_epoch1 init_variables_def Let_def
        chosen_step_def example_env_def is_matrix_def list_all_iff scal_times_mat_def mat_map_def
        eye_def length_parameters2vector full_gradient_def iter_parameters_def
        example_network_def example_layer_def example_shared_def)
  have "case init_train_updates example_env psb ?n2 of Inr u \<Rightarrow> True | Inl err \<Rightarrow> False"
    by code_simp
  then have u: "\<exists>u. init_train_updates example_env psb ?n2 = Inr u"
    by (simp split: sum.splits)
  have p: "length (parameters2vector example_network) = 3"
    "vec_sub (parameters2vector ?n2) (prev_params ?n2) = [Fin 1, Fin 2, Fin 3]"
    "vec_sub (full_gradient example_env ?n2) (prev_full_gradient ?n2) = [Fin 4, Fin 5, Fin 6]"
    "inv_hessian ?n2 = eye 3"
    "scal_times_mat (Fin 1) (eye 3) = eye 3"
    by code_simp+
  note i1 = epoch1_skips_update [where net = ?n1 and e = example_env and f = psb
      and f' = "dfp default_maxnum" and h = 1]
  note i2 = epoch1_skips_update [where net = ?n2 and e = example_env and f = psb
      and f' = psb and h = 1]
  note i3 = epoch1_skips_update [where net = example_network and e = example_env and f = psb
      and f' = psb and h = 1]
  have a: "init_train_updates example_env psb ?n1
      = init_train_updates example_env (dfp default_maxnum) ?n1"
    using i1 e1 by blast
  have b: "\<exists>net'. train_epoch example_env psb (init_variables 1 (example_network\<lparr>epoch := 1\<rparr>))
      = Inr net' \<and> inv_hessian net' = eye 3"
    using i3 t p(1,5) by metis
  have c: "\<exists>u. init_train_updates example_env psb ?n2 = Inr u \<and>
        psb (eye 3) [Fin 1, Fin 2, Fin 3] [Fin 4, Fin 5, Fin 6] = Inr (upd_inv_hessian u)"
    using i2 e2 u p(2,3,4) by metis
  show ?thesis using e1 a b e2 c by blast
qed

text \<open>
  Claim C10: on epoch 1 the outcome of an iteration does not depend on the stored previous
  parameter vector and previous gradient: two networks that differ in these two vectors only
  give the same result, the same error or the same new network, with the same parameters and
  the same inverse Hessian.
\<close>

theorem epoch1_ignores_previous:
  "epoch net = 1 \<Longrightarrow>
   train_epoch e f (net\<lparr>prev_params := a, prev_full_gradient := b\<rparr>) = train_epoch e f net"
  by (simp add: train_epoch_def init_train_updates_def apply_updates_def iter_parameters_def
      parameters2vector_def Let_def split: sum.splits)

theorem epoch1_ignores_previous_witness:
  "epoch (init_variables 1 example_network) = 1 \<and>
   train_epoch example_env (sr1 default_epsilon)
     ((init_variables 1 example_network)
        \<lparr>prev_params := [Fin 7, Fin 8, Fin 9], prev_full_gradient := [NaN, PInf, Fin 1]\<rparr>)
     = train_epoch example_env (sr1 default_epsilon) (init_variables 1 example_network)"
proof -
  have h: "epoch (init_variables 1 example_network) = 1" by code_simp
  show ?thesis using h epoch1_ignores_previous [OF h] by simp
qed

section \<open>The options of the optimizer\<close>

text \<open>
  Claim C9: an update function name outside bfgs, dfp, psb and sr1, such as newton, and a
  negative scale, such as -1, make the configuration fail, and with it the training run
  before any iteration; a name among the four with a non-negative scale is accepted; the
  defaults are bfgs and 1.
\<close>

theorem configure_fails_eagerly:
  "(name \<notin> {''bfgs'', ''dfp'', ''psb'', ''sr1''} \<longrightarrow>
      configure (Some name) given_scale = Inl InvalidChoice \<and>
      train (Some name) given_scale e net k = Inl InvalidChoice) \<and>
   (scale < 0 \<longrightarrow>
      (\<exists>err. configure given_name (Some scale) = Inl err \<and>
             train given_name (Some scale) e net k = Inl err)) \<and>
   (name \<in> {''bfgs'', ''dfp'', ''psb'', ''sr1''} \<and> 0 \<le> scale \<longrightarrow>
      configure (Some name) (Some scale) = Inr \<lparr>update_function = name, h0_scale = scale\<rparr>) \<and>
   configure (Some ''newton'') None = Inl InvalidChoice \<and>
   configure None (Some (- 1)) = Inl BelowMinimum \<and>
   configure None None = Inr \<lparr>update_function = ''bfgs'', h0_scale = 1\<rparr>"
  by (auto simp: configure_def train_def choice_property_def number_property_def
      update_function_choices_def update_function_default_def h0_scale_default_def
      h0_scale_minval_def split: option.splits sum.splits)

theorem configure_fails_eagerly_witness:
  "''newton'' \<notin> {''bfgs'', ''dfp'', ''psb'', ''sr1''} \<and> (- 1 :: real) < 0 \<and>
   ''sr1'' \<in> {''bfgs'', ''dfp'', ''psb'', ''sr1''} \<and> (0 :: real) \<le> 2 \<and>
   train (Some ''newton'') (Some 1) example_env example_network 5 = Inl InvalidChoice \<and>
   (\<exists>err. train (Some ''psb'') (Some (- 1)) example_env example_network 5 = Inl err) \<and>
   configure (Some ''sr1'') (Some 2) = Inr \<lparr>update_function = ''sr1'', h0_scale = 2\<rparr>"
proof -
  have h1: "''newton'' \<notin> {''bfgs'', ''dfp'', ''psb'', ''sr1''}" by simp
  have h2: "(- 1 :: real) < 0" by simp
  have h3: "''sr1'' \<in> {''bfgs'', ''dfp'', ''psb'', ''sr1''} \<and> (0 :: real) \<le> 2" by simp
  note a = configure_fails_eagerly [where name = "''newton''" and given_scale = "Some 1"
      and e = example_env and net = example_network and k = 5, THEN conjunct1, rule_format, OF h1]
  note b = configure_fails_eagerly [where scale = "- 1" and given_name = "Some ''psb''"
      and e = example_env and net = example_network and k = 5,
      THEN conjunct2, THEN conjunct1, rule_format, OF h2]
  note c = configure_fails_eagerly [where name = "''sr1''" and scale = 2,
      THEN conjunct2, THEN conjunct2, THEN conjunct1, rule_format, OF h3]
  from b have b': "\<exists>err. train (Some ''psb'') (Some (- 1)) example_env example_network 5 = Inl err"
    by (elim exE conjE) (rule exI)
  show ?thesis
    by (intro conjI, rule h1, rule h2, rule h3 [THEN conjunct1], rule h3 [THEN conjunct2],
        rule a [THEN conjunct2], rule b', rule c)
qed

section \<open>The update functions against their formulas\<close>

lemma times_fl_commute: "(a::fl) * b = b * a"
  by (cases a; cases b; simp add: mult.commute)

lemma abs_square_fl: "\<bar>x::fl\<bar> * \<bar>x\<bar> = x * x"
  by (cases x) simp_all

lemma norm_L2_norm2: "norm_L2 v = norm2 v"
proof -
  have "map (\<lambda>x. \<bar>x\<bar> * \<bar>x\<bar>) v = map2 (*) v v"
    by (induction v) (simp_all add: abs_square_fl)
  then show ?thesis by (simp add: norm_L2_def norm2_def dot_vv_def)
qed

lemma mat_times_scal_commute: "mat_times_scal A c = scal_times_mat c A"
  by (simp add: mat_times_scal_def scal_times_mat_def times_fl_commute)

lemma bfgs_unfold:
  "conforming H s y \<Longrightarrow>
   bfgs maxrho H s y = Inr (bfgs_formula (bfgs_rho maxrho s y) H s y)"
  by (simp add: bfgs_def bfgs_formula_def Let_def mat_times_scal_commute)

text \<open>
  Claim C4: when \<open>\<rho> = 1 / (y\<^sup>T s)\<close> is finite, \<^verbatim>\<open>bfgs\<close> returns
  \<open>(I - \<rho> \<cdot> s \<otimes> y) \<cdot> H \<cdot> (I - \<rho> \<cdot> y \<otimes> s) + \<rho> \<cdot> (s \<otimes> s)\<close>, for an n by n matrix \<open>H\<close> and
  vectors \<open>s\<close> and \<open>y\<close> of n entries.
\<close>

theorem bfgs_formula_finite_rho:
  "conforming H s y \<Longrightarrow> isfinite (Fin 1 / dot_vv y s) \<Longrightarrow>
   bfgs maxrho H s y = Inr (bfgs_formula (Fin 1 / dot_vv y s) H s y)"
proof -
  assume c: "conforming H s y" and f: "isfinite (Fin 1 / dot_vv y s)"
  have "\<not> isinf (Fin 1 / dot_vv y s)"
    using f by (cases "Fin 1 / dot_vv y s") simp_all
  then have "bfgs_rho maxrho s y = Fin 1 / dot_vv y s"
    by (simp add: bfgs_rho_def Let_def)
  then show ?thesis using bfgs_unfold [OF c] by simp
qed

theorem bfgs_formula_finite_rho_witness:
  "conforming [[Fin 1, Fin 0], [Fin 0, Fin 1]] [Fin 1, Fin 0] [Fin 2, Fin 1] \<and>
   isfinite (Fin 1 / dot_vv [Fin 2, Fin 1] [Fin 1, Fin 0]) \<and>
   bfgs default_maxrho [[Fin 1, Fin 0], [Fin 0, Fin 1]] [Fin 1, Fin 0] [Fin 2, Fin 1]
     = Inr [[Fin (3 / 4), Fin (- (1 / 2))], [Fin (- (1 / 2)), Fin 1]]"
proof -
  have c: "conforming [[Fin 1, Fin 0], [Fin 0, Fin 1]] [Fin 1, Fin 0] [Fin 2, Fin 1]"
    by code_simp
  have f: "isfinite (Fin 1 / dot_vv [Fin 2, Fin 1] [Fin 1, Fin 0])"
    by code_simp
  have v: "bfgs_formula (Fin 1 / dot_vv [Fin 2, Fin 1] [Fin 1, Fin 0])
      [[Fin 1, Fin 0], [Fin 0, Fin 1]] [Fin 1, Fin 0] [Fin 2, Fin 1]
      = [[Fin (3 / 4), Fin (- (1 / 2))], [Fin (- (1 / 2)), Fin 1]]"
    by code_simp
  show ?thesis
    using c f bfgs_formula_finite_rho [OF c f, of default_maxrho] v by simp
qed



section \<open>Finite values\<close>

lemma isfinite_iff: "isfinite x \<longleftrightarrow> (\<exists>r. x = Fin r)"
  by (cases x) simp_all

lemma isfinite_ops:
  "isfinite a \<Longrightarrow> isfinite b \<Longrightarrow> isfinite (a + b)"
  "isfinite a \<Longrightarrow> isfinite b \<Longrightarrow> isfinite (a - b)"
  "isfinite a \<Longrightarrow> isfinite b \<Longrightarrow> isfinite (a * b)"
  by (auto simp: isfinite_iff)

lemma isfinite_sum_list: "list_all isfinite xs \<Longrightarrow> isfinite (sum_list xs)"
  by (induction xs) (simp_all add: isfinite_ops)

lemma finite_vec_map2:
  assumes "finite_vec a" "finite_vec b" "\<And>x y. isfinite x \<Longrightarrow> isfinite y \<Longrightarrow> isfinite (f x y)"
  shows "finite_vec (map2 f a b)"
  using assms unfolding finite_vec_def list_all_iff
  by (auto elim!: in_set_zipE)

lemma isfinite_dot_vv: "finite_vec a \<Longrightarrow> finite_vec b \<Longrightarrow> isfinite (dot_vv a b)"
  unfolding dot_vv_def
  using finite_vec_map2 [of a b "(*)"] isfinite_sum_list
  by (simp add: finite_vec_def isfinite_ops)

lemma finite_mat_zip:
  assumes "finite_mat A" "finite_mat B" "\<And>x y. isfinite x \<Longrightarrow> isfinite y \<Longrightarrow> isfinite (f x y)"
  shows "finite_mat (mat_zip f A B)"
proof -
  have "\<And>ra rb. (ra, rb) \<in> set (zip A B) \<Longrightarrow> finite_vec (map2 f ra rb)"
  proof -
    fix ra rb assume "(ra, rb) \<in> set (zip A B)"
    then have "ra \<in> set A" "rb \<in> set B"
      by (auto elim: in_set_zipE)
    then have "finite_vec ra" "finite_vec rb"
      using assms(1,2) by (auto simp: finite_mat_def list_all_iff)
    then show "finite_vec (map2 f ra rb)" using assms(3) by (rule finite_vec_map2)
  qed
  then show ?thesis by (auto simp: finite_mat_def mat_zip_def list_all_iff)
qed

lemma finite_mat_map:
  "finite_mat A \<Longrightarrow> (\<And>x. isfinite x \<Longrightarrow> isfinite (f x)) \<Longrightarrow> finite_mat (mat_map f A)"
  by (auto simp: finite_mat_def finite_vec_def mat_map_def list_all_iff)

lemma finite_mat_outer: "finite_vec a \<Longrightarrow> finite_vec b \<Longrightarrow> finite_mat (outer a b)"
  by (auto simp: finite_mat_def finite_vec_def outer_def list_all_iff isfinite_ops)

lemma finite_mat_eye: "finite_mat (eye n)"
  by (auto simp: finite_mat_def finite_vec_def eye_def list_all_iff)

lemma finite_vec_column:
  "is_matrix r c B \<Longrightarrow> finite_mat B \<Longrightarrow> j < c \<Longrightarrow> finite_vec (column B j)"
  by (auto simp: is_matrix_def finite_mat_def finite_vec_def column_def list_all_iff)

lemma finite_mat_dot_mm:
  "finite_mat A \<Longrightarrow> finite_mat B \<Longrightarrow> is_matrix r n B \<Longrightarrow> finite_mat (dot_mm n A B)"
  using isfinite_dot_vv finite_vec_column
  by (auto simp: finite_mat_def dot_mm_def list_all_iff) (simp add: finite_vec_def list_all_iff)

lemma is_matrix_zip:
  "is_matrix r c A \<Longrightarrow> is_matrix r c B \<Longrightarrow> is_matrix r c (mat_zip f A B)"
  by (auto simp: is_matrix_def mat_zip_def list_all_iff elim!: in_set_zipE)

lemma is_matrix_map: "is_matrix r c A \<Longrightarrow> is_matrix r c (mat_map f A)"
  by (auto simp: is_matrix_def mat_map_def list_all_iff)

lemma is_matrix_outer: "is_matrix (length a) (length b) (outer a b)"
  by (auto simp: is_matrix_def outer_def list_all_iff)

lemma is_matrix_dot_mm: "is_matrix (length A) n (dot_mm n A B)"
  by (auto simp: is_matrix_def dot_mm_def list_all_iff)



lemma bfgs_rho_finite:
  "finite_vec s \<Longrightarrow> finite_vec y \<Longrightarrow> isfinite maxrho \<Longrightarrow> isfinite (bfgs_rho maxrho s y)"
proof -
  assume "finite_vec s" "finite_vec y" and m: "isfinite maxrho"
  then have "isfinite (dot_vv y s)" by (simp add: isfinite_dot_vv)
  then obtain d where d: "dot_vv y s = Fin d" by (auto simp: isfinite_iff)
  obtain mr where mr: "maxrho = Fin mr" using m by (auto simp: isfinite_iff)
  show ?thesis
    by (cases "d = 0") (simp_all add: bfgs_rho_def d mr signed_inf_def Let_def)
qed



section \<open>The guards of the update functions\<close>

lemma clip1_clipped:
  "0 \<le> m \<Longrightarrow> clipped_to m (clip1 x (Fin (- m)) (Fin m))"
  by (cases x) (auto simp: clip1_def clipped_to_def)

lemma clip_clipped:
  "0 \<le> m \<Longrightarrow> \<forall>row \<in> set (clip A (- Fin m) (Fin m)). \<forall>x \<in> set row. clipped_to m x"
  by (auto simp: clip_def mat_map_def clip1_clipped)

lemma dfp_unfold:
  "conforming H s y \<Longrightarrow>
   dfp maxnum H s y =
     Inr (mat_sub (mat_add H (mat_div_scal (outer s s) (dot_vv y s)))
            (mat_div_scal (clip (dfp_numerator H y) (- maxnum) maxnum)
               (dot_vv y (dot_mv H y))))"
  by (simp add: dfp_def dfp_numerator_def Let_def)

text \<open>
  Claim C7, as stated: every division by a near-zero curvature term in the four update
  functions is absorbed by a guard, and the result of \<^verbatim>\<open>dfp\<close> is guarded against
  \<open>y\<^sup>T s\<close> and \<open>y\<^sup>T H y\<close> near zero. It fails: on finite inputs with \<open>y = 0\<close> both
  divisions of \<^verbatim>\<open>dfp\<close> are by zero and the result is not a number; with
  \<open>y\<^sup>T s\<close> one millionth the result is one million, beyond \<^verbatim>\<open>maxnum\<close>; and the
  division of \<^verbatim>\<open>psb\<close> by \<open>y\<^sup>T y\<close> has no guard either.
\<close>

theorem unguarded_divisions:
  "conforming [[Fin 1]] [Fin 1] [Fin 0] \<and>
   finite_mat [[Fin 1]] \<and> finite_vec [Fin 1] \<and> finite_vec [Fin 0] \<and>
   dfp default_maxnum [[Fin 1]] [Fin 1] [Fin 0] = Inr [[NaN]] \<and>
   dfp default_maxnum [[Fin 1]] [Fin 1] [Fin (1 / 1000000)] = Inr [[Fin 1000000]] \<and>
   \<not> clipped_to 100000 (Fin 1000000) \<and>
   psb [[Fin 1]] [Fin 1] [Fin 0] = Inr [[NaN]]"
  by code_simp

text \<open>
  Claim C7, amended: on an n by n matrix and vectors of n entries no update function raises,
  each returns a matrix. \<^verbatim>\<open>bfgs\<close> replaces an infinite \<open>\<rho>\<close> by \<open>maxrho \<cdot> sign(\<rho>)\<close>,
  \<^verbatim>\<open>sr1\<close> returns \<open>H\<close> unchanged when its denominator is small, and \<^verbatim>\<open>dfp\<close> clips
  the entries of the numerator of its second term, each of which is then not a number or
  between \<open>- maxnum\<close> and \<open>maxnum\<close>, and divides after the clipping.
\<close>

theorem degeneracy_guards:
  "conforming H s y \<Longrightarrow>
   (\<exists>M. bfgs maxrho H s y = Inr M) \<and> (\<exists>M. dfp maxnum H s y = Inr M) \<and>
   (\<exists>M. psb H s y = Inr M) \<and> (\<exists>M. sr1 \<epsilon> H s y = Inr M) \<and>
   (isinf (Fin 1 / dot_vv y s) \<longrightarrow>
      bfgs maxrho H s y = Inr (bfgs_formula (maxrho * sgn (Fin 1 / dot_vv y s)) H s y)) \<and>
   (sr1_skips \<epsilon> H s y \<longrightarrow> sr1 \<epsilon> H s y = Inr H) \<and>
   dfp maxnum H s y =
     Inr (mat_sub (mat_add H (mat_div_scal (outer s s) (dot_vv y s)))
            (mat_div_scal (clip (dfp_numerator H y) (- maxnum) maxnum)
               (dot_vv y (dot_mv H y)))) \<and>
   (\<forall>m. maxnum = Fin m \<and> 0 \<le> m \<longrightarrow>
      (\<forall>row \<in> set (clip (dfp_numerator H y) (- maxnum) maxnum). \<forall>x \<in> set row.
         clipped_to m x))"
proof (intro conjI)
  assume c: "conforming H s y"
  show "\<exists>M. bfgs maxrho H s y = Inr M" using bfgs_unfold [OF c] by simp
  show "\<exists>M. dfp maxnum H s y = Inr M" using dfp_unfold [OF c] by simp
  show "\<exists>M. psb H s y = Inr M" using c by (simp add: psb_def Let_def)
  show "\<exists>M. sr1 \<epsilon> H s y = Inr M" using c by (simp add: sr1_def Let_def)
  show "isinf (Fin 1 / dot_vv y s) \<longrightarrow>
      bfgs maxrho H s y = Inr (bfgs_formula (maxrho * sgn (Fin 1 / dot_vv y s)) H s y)"
    using bfgs_unfold [OF c] by (simp add: bfgs_rho_def Let_def)
  show "sr1_skips \<epsilon> H s y \<longrightarrow> sr1 \<epsilon> H s y = Inr H"
    using c by (simp add: sr1_def sr1_skips_def sr1_residual_def Let_def norm_L2_norm2)
  show "dfp maxnum H s y =
     Inr (mat_sub (mat_add H (mat_div_scal (outer s s) (dot_vv y s)))
            (mat_div_scal (clip (dfp_numerator H y) (- maxnum) maxnum)
               (dot_vv y (dot_mv H y))))"
    by (rule dfp_unfold [OF c])
  show "\<forall>m. maxnum = Fin m \<and> 0 \<le> m \<longrightarrow>
      (\<forall>row \<in> set (clip (dfp_numerator H y) (- maxnum) maxnum). \<forall>x \<in> set row.
         clipped_to m x)"
    using clip_clipped by auto
qed

theorem degeneracy_guards_witness:
  "conforming [[Fin 1, Fin 0], [Fin 0, Fin 1]] [Fin 1, Fin 1] [Fin 1, Fin 0] \<and>
   (\<exists>M. dfp default_maxnum [[Fin 1, Fin 0], [Fin 0, Fin 1]] [Fin 1, Fin 1] [Fin 1, Fin 0] = Inr M) \<and>
   (\<exists>M. psb [[Fin 1, Fin 0], [Fin 0, Fin 1]] [Fin 1, Fin 1] [Fin 1, Fin 0] = Inr M) \<and>
   sr1 default_epsilon [[Fin 1, Fin 0], [Fin 0, Fin 1]] [Fin 1, Fin 1] [Fin 1, Fin 0]
     = Inr [[Fin 1, Fin 0], [Fin 0, Fin 1]] \<and>
   clip (dfp_numerator [[Fin 1, Fin 0], [Fin 0, Fin 1]] [Fin 1, Fin 0])
     (- default_maxnum) default_maxnum = [[Fin 1, Fin 0], [Fin 0, Fin 0]] \<and>
   clipped_to 100000 (Fin 1)"
proof -
  let ?I = "[[Fin 1, Fin 0], [Fin 0, Fin 1]]"
  have c: "conforming ?I [Fin 1, Fin 1] [Fin 1, Fin 0]" by code_simp
  have k: "sr1_skips default_epsilon ?I [Fin 1, Fin 1] [Fin 1, Fin 0]"
    by (simp add: sr1_skips_def sr1_residual_def norm2_def dot_vv_def dot_mv_def vec_sub_def
        default_epsilon_def)
  have m: "default_maxnum = Fin 100000 \<and> (0 :: real) \<le> 100000"
    by (simp add: default_maxnum_def)
  note g = degeneracy_guards [OF c, of default_maxrho default_maxnum default_epsilon]
  note g2 = g [THEN conjunct2]
  note g3 = g2 [THEN conjunct2]
  note g4 = g3 [THEN conjunct2]
  note g5 = g4 [THEN conjunct2]
  note g6 = g5 [THEN conjunct2]
  note g7 = g6 [THEN conjunct2]
  note a = g2 [THEN conjunct1]
  note b = g3 [THEN conjunct1]
  note d = g6 [THEN conjunct1, rule_format, OF k]
  note e = g7 [THEN conjunct2, THEN spec, THEN mp, OF m]
  have v: "clip (dfp_numerator ?I [Fin 1, Fin 0]) (- default_maxnum) default_maxnum
      = [[Fin 1, Fin 0], [Fin 0, Fin 0]]"
    by code_simp
  have w: "clipped_to 100000 (Fin 1)"
    using e unfolding v by simp
  show ?thesis
    by (intro conjI, rule c, rule a, rule b, rule d, rule v, rule w)
qed

section \<open>The trial evaluation of the line search\<close>

lemma find_member_Some:
  "find_member ms p = Some n \<Longrightarrow> (n, Shared p) \<in> set ms"
  by (induction ms p rule: find_member.induct) (auto split: if_splits)

lemma getmembers_set:
  "(n, v) \<in> set (getmembers l) \<Longrightarrow> n \<in> set (member_names l) \<and> attrs l n = Some v"
  by (auto simp: getmembers_def List.map_filter_def)

lemma find_param_name_Some:
  "find_param_name l p = Some n \<Longrightarrow> n \<in> set (member_names l) \<and> attrs l n = Some (Shared p)"
  unfolding find_param_name_def by (blast dest: find_member_Some getmembers_set)

lemma iter_layers_and_parameters_set:
  "(i, a, p) \<in> set (iter_layers_and_parameters ls) \<Longrightarrow>
   i < length ls \<and> a = find_param_name (ls ! i) p"
  by (auto simp: iter_layers_and_parameters_def)

lemma setattr_at_existing:
  "i < length ls \<Longrightarrow> n \<in> set (member_names (ls ! i)) \<Longrightarrow>
   setattr_at ls i (Some n) v = Inr (ls[i := (ls ! i)\<lparr>attrs := (attrs (ls ! i))(n \<mapsto> v)\<rparr>])"
  by (simp add: setattr_at_def setattr_def)

lemma attrs_update_other:
  "(j, m) \<noteq> (i, n) \<Longrightarrow> j < length ls \<Longrightarrow>
   attrs (ls[i := (ls ! i)\<lparr>attrs := (attrs (ls ! i))(n \<mapsto> v)\<rparr>] ! j) m = attrs (ls ! j) m"
  by (cases "j = i") (auto simp: nth_list_update)

lemma attrs_update_same:
  "i < length ls \<Longrightarrow>
   attrs (ls[i := (ls ! i)\<lparr>attrs := (attrs (ls ! i))(n \<mapsto> v)\<rparr>] ! i) n = Some v"
  by simp

lemma names_exist_Cons:
  "names_exist ls ((i, a, p) # ts) \<longleftrightarrow>
   (\<exists>n. a = Some n \<and> i < length ls \<and> n \<in> set (member_names (ls ! i))) \<and> names_exist ls ts"
  by (auto simp: names_exist_def)

lemma names_exist_frame:
  "same_frame ls ls' \<Longrightarrow> names_exist ls ts \<Longrightarrow> names_exist ls' ts"
  by (fastforce simp: names_exist_def same_frame_def)

lemma same_frame_refl: "same_frame ls ls"
  by (simp add: same_frame_def)

lemma same_frame_trans: "same_frame a b \<Longrightarrow> same_frame b c \<Longrightarrow> same_frame a c"
  by (simp add: same_frame_def)

lemma same_frame_update:
  "i < length ls \<Longrightarrow> same_frame ls (ls[i := (ls ! i)\<lparr>attrs := f\<rparr>])"
  by (simp add: same_frame_def nth_list_update)

lemma touched_Cons: "touched ((i, Some n, p) # ts) = insert (i, n) (touched ts)"
  by (auto simp: touched_def)

lemma substitute_frame:
  "names_exist ls ts \<Longrightarrow>
   \<exists>ls1. substitute sh v ts k ls = Inr ls1 \<and> same_frame ls ls1 \<and>
     (\<forall>i < length ls. \<forall>m. (i, m) \<notin> touched ts \<longrightarrow> attrs (ls1 ! i) m = attrs (ls ! i) m)"
proof (induction ts arbitrary: ls k)
  case Nil
  then show ?case by (simp add: same_frame_refl)
next
  case (Cons t ts)
  obtain i a p where t: "t = (i, a, p)" by (cases t)
  from Cons.prems obtain n where n: "a = Some n" "i < length ls" "n \<in> set (member_names (ls ! i))"
    and rest: "names_exist ls ts"
    unfolding t names_exist_Cons by blast
  let ?k = "k + length (entries (sh p))"
  let ?v = "Expression \<lparr>shape = shape (sh p), entries = take (?k - k) (drop k v)\<rparr>"
  let ?ls' = "ls[i := (ls ! i)\<lparr>attrs := (attrs (ls ! i))(n \<mapsto> ?v)\<rparr>]"
  have fr: "same_frame ls ?ls'" using n(2) by (rule same_frame_update)
  have "names_exist ?ls' ts" using fr rest by (rule names_exist_frame)
  from Cons.IH [OF this, of ?k] obtain ls1 where
    s1: "substitute sh v ts ?k ?ls' = Inr ls1" and f1: "same_frame ?ls' ls1"
    and a1: "\<forall>j < length ?ls'. \<forall>m. (j, m) \<notin> touched ts \<longrightarrow> attrs (ls1 ! j) m = attrs (?ls' ! j) m"
    by blast
  have step: "substitute sh v (t # ts) k ls = Inr ls1"
    using s1 setattr_at_existing [OF n(2,3), of ?v] by (simp add: t n(1) Let_def)
  have "\<forall>j < length ls. \<forall>m. (j, m) \<notin> touched (t # ts) \<longrightarrow> attrs (ls1 ! j) m = attrs (ls ! j) m"
  proof (intro allI impI)
    fix j m assume j: "j < length ls" and nt: "(j, m) \<notin> touched (t # ts)"
    then have nt': "(j, m) \<noteq> (i, n)" "(j, m) \<notin> touched ts"
      by (simp_all add: t n(1) touched_Cons)
    have "attrs (ls1 ! j) m = attrs (?ls' ! j) m" using a1 j nt'(2) by simp
    also have "\<dots> = attrs (ls ! j) m" using nt'(1) j by (rule attrs_update_other)
    finally show "attrs (ls1 ! j) m = attrs (ls ! j) m" .
  qed
  then show ?case using step same_frame_trans [OF fr f1] by blast
qed

lemma restore_result:
  "names_exist ls1 ts \<Longrightarrow>
   (\<And>i n p. (i, Some n, p) \<in> set ts \<Longrightarrow> tgt i n = Some (Shared p)) \<Longrightarrow>
   \<exists>ls2. restore ts ls1 = Inr ls2 \<and> same_frame ls1 ls2 \<and>
     (\<forall>i < length ls1. \<forall>m. attrs (ls2 ! i) m
         = (if (i, m) \<in> touched ts then tgt i m else attrs (ls1 ! i) m))"
proof (induction ts arbitrary: ls1)
  case Nil
  then show ?case by (simp add: same_frame_refl touched_def)
next
  case (Cons t ts)
  obtain i a p where t: "t = (i, a, p)" by (cases t)
  from Cons.prems(1) obtain n where n: "a = Some n" "i < length ls1"
      "n \<in> set (member_names (ls1 ! i))"
    and rest: "names_exist ls1 ts"
    unfolding t names_exist_Cons by blast
  have tg: "tgt i n = Some (Shared p)" using Cons.prems(2) [of i n p] by (simp add: t n(1))
  let ?ls' = "ls1[i := (ls1 ! i)\<lparr>attrs := (attrs (ls1 ! i))(n \<mapsto> Shared p)\<rparr>]"
  have fr: "same_frame ls1 ?ls'" using n(2) by (rule same_frame_update)
  have ne: "names_exist ?ls' ts" using fr rest by (rule names_exist_frame)
  have tg': "\<And>i n p. (i, Some n, p) \<in> set ts \<Longrightarrow> tgt i n = Some (Shared p)"
    using Cons.prems(2) by simp
  from Cons.IH [OF ne tg'] obtain ls2 where
    r2: "restore ts ?ls' = Inr ls2" and f2: "same_frame ?ls' ls2"
    and a2: "\<forall>j < length ?ls'. \<forall>m. attrs (ls2 ! j) m
         = (if (j, m) \<in> touched ts then tgt j m else attrs (?ls' ! j) m)"
    by blast
  have step: "restore (t # ts) ls1 = Inr ls2"
    using r2 setattr_at_existing [OF n(2,3), of "Shared p"] by (simp add: t n(1))
  have "\<forall>j < length ls1. \<forall>m. attrs (ls2 ! j) m
         = (if (j, m) \<in> touched (t # ts) then tgt j m else attrs (ls1 ! j) m)"
  proof (intro allI impI)
    fix j m assume j: "j < length ls1"
    have e: "attrs (ls2 ! j) m = (if (j, m) \<in> touched ts then tgt j m else attrs (?ls' ! j) m)"
      using a2 j by simp
    show "attrs (ls2 ! j) m
         = (if (j, m) \<in> touched (t # ts) then tgt j m else attrs (ls1 ! j) m)"
    proof (cases "(j, m) = (i, n)")
      case True
      then show ?thesis using e tg j by (simp add: t n(1) touched_Cons nth_list_update)
    next
      case False
      have "attrs (?ls' ! j) m = attrs (ls1 ! j) m" using False j by (rule attrs_update_other)
      then show ?thesis using e False by (auto simp: t n(1) touched_Cons)
    qed
  qed
  then show ?case using step same_frame_trans [OF fr f2] by blast
qed

lemma substitute_Inr_names:
  "substitute sh v ts k ls = Inr ls1 \<Longrightarrow> \<forall>(i, a, p) \<in> set ts. a \<noteq> None"
proof (induction ts arbitrary: ls k)
  case Nil
  then show ?case by simp
next
  case (Cons t ts)
  obtain i a p where t: "t = (i, a, p)" by (cases t)
  show ?case
  proof (cases a)
    case None
    then show ?thesis using Cons.prems by (simp add: t setattr_at_def setattr_def Let_def)
  next
    case (Some n)
    then obtain ls' where "substitute sh v ts (k + length (entries (sh p))) ls' = Inr ls1"
      using Cons.prems by (auto simp: t Let_def split: sum.splits)
    from Cons.IH [OF this] show ?thesis by (simp add: t Some)
  qed
qed

lemma names_exist_iter:
  "\<forall>(i, a, p) \<in> set (iter_layers_and_parameters ls). a \<noteq> None \<Longrightarrow>
   names_exist ls (iter_layers_and_parameters ls)"
  unfolding names_exist_def
  using iter_layers_and_parameters_set find_param_name_Some by fastforce

lemma layers_equal:
  assumes f: "same_frame ls ls2"
    and a: "\<forall>i < length ls. \<forall>m. attrs (ls2 ! i) m = attrs (ls ! i) m"
  shows "ls2 = ls"
proof (rule nth_equalityI)
  show "length ls2 = length ls" using f by (simp add: same_frame_def)
next
  fix i assume "i < length ls2"
  then have i: "i < length ls" using f by (simp add: same_frame_def)
  have "attrs (ls2 ! i) = attrs (ls ! i)" using a i by (intro ext) simp
  then show "ls2 ! i = ls ! i" using f i by (simp add: same_frame_def)
qed

lemma prediction_found:
  assumes nn: "\<forall>(i, a, p) \<in> set (iter_layers_and_parameters ls). a \<noteq> None"
  shows "\<exists>ls1. substitute sh (vec_add pv (scal_vec step pd)) (iter_layers_and_parameters ls) 0 ls
            = Inr ls1 \<and>
          prediction e sh (iter_layers_and_parameters ls) pv pd ls step
            = Inr (net_output e ls1, ls)"
proof -
  let ?ts = "iter_layers_and_parameters ls"
  let ?v = "vec_add pv (scal_vec step pd)"
  have ne: "names_exist ls ?ts" using nn by (rule names_exist_iter)
  from substitute_frame [OF ne, of sh ?v 0] obtain ls1 where
    s1: "substitute sh ?v ?ts 0 ls = Inr ls1" and f1: "same_frame ls ls1"
    and a1: "\<forall>i < length ls. \<forall>m. (i, m) \<notin> touched ?ts \<longrightarrow> attrs (ls1 ! i) m = attrs (ls ! i) m"
    by blast
  have ne1: "names_exist ls1 ?ts" using f1 ne by (rule names_exist_frame)
  have tg: "\<And>i n p. (i, Some n, p) \<in> set ?ts \<Longrightarrow> attrs (ls ! i) n = Some (Shared p)"
    using iter_layers_and_parameters_set find_param_name_Some by metis
  from restore_result [OF ne1, of "\<lambda>i n. attrs (ls ! i) n", OF tg] obtain ls2 where
    r2: "restore ?ts ls1 = Inr ls2" and f2: "same_frame ls1 ls2"
    and a2: "\<forall>i < length ls1. \<forall>m. attrs (ls2 ! i) m
         = (if (i, m) \<in> touched ?ts then attrs (ls ! i) m else attrs (ls1 ! i) m)"
    by blast
  have len: "length ls1 = length ls" using f1 by (simp add: same_frame_def)
  have "\<forall>i < length ls. \<forall>m. attrs (ls2 ! i) m = attrs (ls ! i) m"
    using a1 a2 len by auto
  with same_frame_trans [OF f1 f2] have "ls2 = ls" by (rule layers_equal)
  then show ?thesis using s1 r2 by (simp add: prediction_def Let_def)
qed

text \<open>
  Claim C8: when \<^verbatim>\<open>prediction\<close> returns, the layers are as they were before the call:
  every attribute that was set to a trial expression holds its shared variable again. So a
  second evaluation at the same step starts from the same layers and \<^verbatim>\<open>phi\<close> and
  \<^verbatim>\<open>derphi\<close> give the same value again. When every parameter is found among the
  attributes of its layer, \<^verbatim>\<open>prediction\<close> does return, with the output of the network on
  the substituted layers.
\<close>

theorem prediction_restores:
  "(prediction e sh (iter_layers_and_parameters ls) pv pd ls step = Inr (out, ls') \<longrightarrow>
      ls' = ls \<and>
      (\<forall>(i, a, p) \<in> set (iter_layers_and_parameters ls).
         \<exists>n. a = Some n \<and> attrs (ls' ! i) n = Some (Shared p)) \<and>
      prediction e sh (iter_layers_and_parameters ls') pv pd ls' step = Inr (out, ls') \<and>
      phi e sh (iter_layers_and_parameters ls') pv pd ls' step
        = phi e sh (iter_layers_and_parameters ls) pv pd ls step \<and>
      derphi e sh (iter_layers_and_parameters ls') pv pd ls' step
        = derphi e sh (iter_layers_and_parameters ls) pv pd ls step) \<and>
   (all_found ls \<longrightarrow>
      (\<exists>ls1. substitute sh (vec_add pv (scal_vec step pd)) (iter_layers_and_parameters ls) 0 ls
               = Inr ls1 \<and>
             prediction e sh (iter_layers_and_parameters ls) pv pd ls step
               = Inr (net_output e ls1, ls)))"
proof (intro conjI impI)
  let ?ts = "iter_layers_and_parameters ls"
  assume p: "prediction e sh ?ts pv pd ls step = Inr (out, ls')"
  then obtain ls1 where "substitute sh (vec_add pv (scal_vec step pd)) ?ts 0 ls = Inr ls1"
    by (auto simp: prediction_def Let_def split: sum.splits)
  then have nn: "\<forall>(i, a, p) \<in> set ?ts. a \<noteq> None" by (rule substitute_Inr_names)
  from prediction_found [OF nn, of sh pv step pd e] p show eq: "ls' = ls" by auto
  show "\<forall>(i, a, p) \<in> set ?ts. \<exists>n. a = Some n \<and> attrs (ls' ! i) n = Some (Shared p)"
    unfolding eq using nn iter_layers_and_parameters_set find_param_name_Some by fastforce
  show "prediction e sh (iter_layers_and_parameters ls') pv pd ls' step = Inr (out, ls')"
    using p by (simp add: eq)
  show "phi e sh (iter_layers_and_parameters ls') pv pd ls' step = phi e sh ?ts pv pd ls step"
    by (simp add: eq)
  show "derphi e sh (iter_layers_and_parameters ls') pv pd ls' step
      = derphi e sh ?ts pv pd ls step"
    by (simp add: eq)
next
  assume "all_found ls"
  then have "\<forall>(i, a, p) \<in> set (iter_layers_and_parameters ls). a \<noteq> None"
    by (simp add: all_found_def list_all_iff)
  then show "\<exists>ls1. substitute sh (vec_add pv (scal_vec step pd)) (iter_layers_and_parameters ls) 0 ls
               = Inr ls1 \<and>
             prediction e sh (iter_layers_and_parameters ls) pv pd ls step
               = Inr (net_output e ls1, ls)"
    by (rule prediction_found)
qed

theorem prediction_restores_witness:
  "all_found [example_layer] \<and>
   prediction example_env example_shared (iter_layers_and_parameters [example_layer])
     [Fin 1, Fin 2, Fin 3] [Fin 1, Fin 1, Fin 1] [example_layer] (Fin 2)
     = Inr ([Fin 3, Fin 4], [example_layer]) \<and>
   phi example_env example_shared (iter_layers_and_parameters [example_layer])
     [Fin 1, Fin 2, Fin 3] [Fin 1, Fin 1, Fin 1] [example_layer] (Fin 2) = Inr (Fin 25) \<and>
   attrs ([example_layer] ! 0) ''weight'' = Some (Shared 0)"
proof -
  let ?ts = "iter_layers_and_parameters [example_layer]"
  let ?pv = "[Fin 1, Fin 2, Fin 3]"
  let ?pd = "[Fin 1, Fin 1, Fin 1]"
  have f: "all_found [example_layer]" by code_simp
  have o: "case substitute example_shared (vec_add ?pv (scal_vec (Fin 2) ?pd)) ?ts 0 [example_layer]
           of Inr ls1 \<Rightarrow> net_output example_env ls1 = [Fin 3, Fin 4] | Inl err \<Rightarrow> False"
    by code_simp
  note t = prediction_restores [where ls = "[example_layer]" and e = example_env
      and sh = example_shared and pv = ?pv and pd = ?pd and step = "Fin 2"
      and out = "[Fin 3, Fin 4]" and ls' = "[example_layer]"]
  from t [THEN conjunct2, rule_format, OF f] o
  have p: "prediction example_env example_shared ?ts ?pv ?pd [example_layer] (Fin 2)
      = Inr ([Fin 3, Fin 4], [example_layer])"
    by auto
  have e: "error_func example_env [Fin 3, Fin 4] = Fin 25"
    by code_simp
  have ph: "phi example_env example_shared ?ts ?pv ?pd [example_layer] (Fin 2) = Inr (Fin 25)"
    using p e by (simp add: phi_def)
  have m: "(0, Some ''weight'', 0) \<in> set ?ts" by code_simp
  from t [THEN conjunct1, rule_format, OF p]
  have "\<forall>(i, a, p) \<in> set ?ts. \<exists>n. a = Some n \<and> attrs ([example_layer] ! i) n = Some (Shared p)"
    by blast
  with m have w: "attrs ([example_layer] ! 0) ''weight'' = Some (Shared 0)" by fastforce
  show ?thesis by (intro conjI, rule f, rule p, rule ph, rule w)
qed

section \<open>The symmetry of the other three updates\<close>

text \<open>
  Beside \<^verbatim>\<open>dfp\<close>, the update functions keep a symmetric matrix symmetric: \<^verbatim>\<open>psb\<close> and
  \<^verbatim>\<open>sr1\<close> on every input of matching shapes, \<^verbatim>\<open>bfgs\<close> on finite inputs, where the
  sums of its two matrix products are sums of real numbers.
\<close>

lemma is_matrix_row: "is_matrix r c A \<Longrightarrow> i < r \<Longrightarrow> length (A ! i) = c"
  by (auto simp: is_matrix_def list_all_iff)

lemma is_matrix_length: "is_matrix r c A \<Longrightarrow> length A = r"
  by (simp add: is_matrix_def)

lemma mat_zip_nth:
  "is_matrix r c A \<Longrightarrow> is_matrix r c B \<Longrightarrow> i < r \<Longrightarrow> j < c \<Longrightarrow>
   mat_zip f A B ! i ! j = f (A ! i ! j) (B ! i ! j)"
  by (simp add: mat_zip_def is_matrix_length is_matrix_row)

lemma mat_map_nth:
  "is_matrix r c A \<Longrightarrow> i < r \<Longrightarrow> j < c \<Longrightarrow> mat_map f A ! i ! j = f (A ! i ! j)"
  by (simp add: mat_map_def is_matrix_length is_matrix_row)

lemma outer_nth: "i < length a \<Longrightarrow> j < length b \<Longrightarrow> outer a b ! i ! j = a ! i * b ! j"
  by (simp add: outer_def)

lemma symmetric_entries:
  "symmetric n M \<longleftrightarrow> is_matrix n n M \<and> (\<forall>i < n. \<forall>j < n. M ! i ! j = M ! j ! i)"
proof (cases "is_matrix n n M")
  case False
  then show ?thesis by (simp add: symmetric_def)
next
  case True
  have len: "length M = n" and row: "\<And>i. i < n \<Longrightarrow> length (M ! i) = n"
    using True by (simp_all add: is_matrix_length is_matrix_row)
  have tr: "\<And>i j. i < n \<Longrightarrow> j < n \<Longrightarrow> transpose_mat n M ! j ! i = M ! i ! j"
    by (simp add: transpose_mat_def column_def len)
  have "transpose_mat n M = M \<longleftrightarrow> (\<forall>i < n. \<forall>j < n. M ! i ! j = M ! j ! i)"
  proof
    assume e: "transpose_mat n M = M"
    show "\<forall>i < n. \<forall>j < n. M ! i ! j = M ! j ! i"
      using tr unfolding e by simp
  next
    assume s: "\<forall>i < n. \<forall>j < n. M ! i ! j = M ! j ! i"
    show "transpose_mat n M = M"
    proof (rule nth_equalityI)
      show "length (transpose_mat n M) = length M" by (simp add: transpose_mat_def len)
    next
      fix j assume "j < length (transpose_mat n M)"
      then have j: "j < n" by (simp add: transpose_mat_def)
      show "transpose_mat n M ! j = M ! j"
      proof (rule nth_equalityI)
        show "length (transpose_mat n M ! j) = length (M ! j)"
          using j by (simp add: transpose_mat_def column_def len row)
      next
        fix i assume "i < length (transpose_mat n M ! j)"
        then have i: "i < n" using j by (simp add: transpose_mat_def column_def len)
        show "transpose_mat n M ! j ! i = M ! j ! i" using tr [OF i j] s i j by simp
      qed
    qed
  qed
  then show ?thesis using True by (simp add: symmetric_def)
qed

lemma length_residual:
  "conforming H s y \<Longrightarrow> length (vec_sub s (dot_mv H y)) = length H"
  by (simp add: conforming_def)

lemma psb_symmetric:
  assumes c: "conforming H s y" and sy: "symmetric (length H) H"
  shows "\<exists>M. psb H s y = Inr M \<and> symmetric (length H) M"
proof -
  let ?n = "length H"
  let ?r = "vec_sub s (dot_mv H y)"
  let ?d = "Fin 1 / dot_vv y y"
  let ?c = "dot_vv y ?r"
  let ?A = "mat_add (outer ?r y) (outer y ?r)"
  let ?B = "scal_times_mat ?c (outer y y)"
  let ?M = "mat_sub (mat_add H (mat_times_scal ?A ?d)) (mat_times_scal ?B (?d * ?d))"
  have ly: "length y = ?n" and lr: "length ?r = ?n"
    using c by (simp_all add: conforming_def)
  have mH: "is_matrix ?n ?n H" using c by (simp add: conforming_def)
  have hs: "\<And>i j. i < ?n \<Longrightarrow> j < ?n \<Longrightarrow> H ! i ! j = H ! j ! i"
    using sy by (simp add: symmetric_entries)
  have m1: "is_matrix ?n ?n (outer ?r y)" and m2: "is_matrix ?n ?n (outer y ?r)"
    and m3: "is_matrix ?n ?n (outer y y)"
    using is_matrix_outer [of ?r y] is_matrix_outer [of y ?r] is_matrix_outer [of y y] ly lr
    by simp_all
  have mA: "is_matrix ?n ?n ?A" unfolding mat_add_def using m1 m2 by (rule is_matrix_zip)
  have mAs: "is_matrix ?n ?n (mat_times_scal ?A ?d)"
    unfolding mat_times_scal_def using mA by (rule is_matrix_map)
  have mB: "is_matrix ?n ?n ?B" unfolding scal_times_mat_def using m3 by (rule is_matrix_map)
  have mBs: "is_matrix ?n ?n (mat_times_scal ?B (?d * ?d))"
    unfolding mat_times_scal_def using mB by (rule is_matrix_map)
  have mL: "is_matrix ?n ?n (mat_add H (mat_times_scal ?A ?d))"
    unfolding mat_add_def using mH mAs [unfolded mat_add_def] by (rule is_matrix_zip)
  have mM: "is_matrix ?n ?n ?M"
    unfolding mat_sub_def using mL mBs by (rule is_matrix_zip)
  have entry: "\<And>i j. i < ?n \<Longrightarrow> j < ?n \<Longrightarrow>
      ?M ! i ! j = H ! i ! j + (?r ! i * y ! j + y ! i * ?r ! j) * ?d
                     - ?c * (y ! i * y ! j) * (?d * ?d)"
  proof -
    fix i j assume i: "i < ?n" and j: "j < ?n"
    have a: "?A ! i ! j = ?r ! i * y ! j + y ! i * ?r ! j"
      unfolding mat_add_def using mat_zip_nth [OF m1 m2 i j] i j ly lr by (simp add: outer_nth)
    have b: "?B ! i ! j = ?c * (y ! i * y ! j)"
      unfolding scal_times_mat_def using mat_map_nth [OF m3 i j] i j ly by (simp add: outer_nth)
    have as: "mat_times_scal ?A ?d ! i ! j = ?A ! i ! j * ?d"
      unfolding mat_times_scal_def using mA i j by (rule mat_map_nth)
    have bs: "mat_times_scal ?B (?d * ?d) ! i ! j = ?B ! i ! j * (?d * ?d)"
      unfolding mat_times_scal_def using mB i j by (rule mat_map_nth)
    have l: "mat_add H (mat_times_scal ?A ?d) ! i ! j = H ! i ! j + mat_times_scal ?A ?d ! i ! j"
      unfolding mat_add_def using mH mAs [unfolded mat_add_def] i j by (rule mat_zip_nth)
    have "?M ! i ! j = mat_add H (mat_times_scal ?A ?d) ! i ! j - mat_times_scal ?B (?d * ?d) ! i ! j"
      unfolding mat_sub_def using mL mBs i j by (rule mat_zip_nth)
    then show "?M ! i ! j = H ! i ! j + (?r ! i * y ! j + y ! i * ?r ! j) * ?d
                     - ?c * (y ! i * y ! j) * (?d * ?d)"
      unfolding l as bs a b .
  qed
  have "\<forall>i < ?n. \<forall>j < ?n. ?M ! i ! j = ?M ! j ! i"
  proof (intro allI impI)
    fix i j assume i: "i < ?n" and j: "j < ?n"
    have "?r ! i * y ! j + y ! i * ?r ! j = ?r ! j * y ! i + y ! j * ?r ! i"
      by (simp add: times_fl_commute add.commute)
    moreover have "y ! i * y ! j = y ! j * y ! i" by (rule times_fl_commute)
    ultimately show "?M ! i ! j = ?M ! j ! i"
      unfolding entry [OF i j] entry [OF j i] hs [OF i j] by simp
  qed
  then have "symmetric ?n ?M" using mM by (simp add: symmetric_entries)
  moreover have "psb H s y = Inr ?M" using c by (simp add: psb_def Let_def)
  ultimately show ?thesis by blast
qed

lemma sr1_unfold:
  "conforming H s y \<Longrightarrow>
   sr1 \<epsilon> H s y =
     Inr (if sr1_skips \<epsilon> H s y then H
          else mat_add H
                 (mat_div_scal (outer (sr1_residual H s y) (sr1_residual H s y))
                    (dot_vv (sr1_residual H s y) y)))"
  by (simp add: sr1_def sr1_skips_def sr1_residual_def Let_def norm_L2_norm2)

lemma sr1_symmetric:
  assumes c: "conforming H s y" and sy: "symmetric (length H) H"
  shows "\<exists>M. sr1 \<epsilon> H s y = Inr M \<and> symmetric (length H) M"
proof (cases "sr1_skips \<epsilon> H s y")
  case True
  then show ?thesis using sr1_unfold [OF c, of \<epsilon>] sy by simp
next
  case False
  let ?n = "length H"
  let ?r = "sr1_residual H s y"
  let ?q = "dot_vv ?r y"
  let ?M = "mat_add H (mat_div_scal (outer ?r ?r) ?q)"
  have lr: "length ?r = ?n" using c by (simp add: sr1_residual_def conforming_def)
  have mH: "is_matrix ?n ?n H" using c by (simp add: conforming_def)
  have hs: "\<And>i j. i < ?n \<Longrightarrow> j < ?n \<Longrightarrow> H ! i ! j = H ! j ! i"
    using sy by (simp add: symmetric_entries)
  have m1: "is_matrix ?n ?n (outer ?r ?r)" using is_matrix_outer [of ?r ?r] lr by simp
  have m2: "is_matrix ?n ?n (mat_div_scal (outer ?r ?r) ?q)"
    unfolding mat_div_scal_def using m1 by (rule is_matrix_map)
  have mM: "is_matrix ?n ?n ?M" unfolding mat_add_def using mH m2 by (rule is_matrix_zip)
  have entry: "\<And>i j. i < ?n \<Longrightarrow> j < ?n \<Longrightarrow> ?M ! i ! j = H ! i ! j + (?r ! i * ?r ! j) / ?q"
  proof -
    fix i j assume i: "i < ?n" and j: "j < ?n"
    have d: "mat_div_scal (outer ?r ?r) ?q ! i ! j = (outer ?r ?r ! i ! j) / ?q"
      unfolding mat_div_scal_def using m1 i j by (rule mat_map_nth)
    have "?M ! i ! j = H ! i ! j + mat_div_scal (outer ?r ?r) ?q ! i ! j"
      unfolding mat_add_def using mH m2 i j by (rule mat_zip_nth)
    then show "?M ! i ! j = H ! i ! j + (?r ! i * ?r ! j) / ?q"
      unfolding d using i j lr by (simp add: outer_nth)
  qed
  have "\<forall>i < ?n. \<forall>j < ?n. ?M ! i ! j = ?M ! j ! i"
  proof (intro allI impI)
    fix i j assume i: "i < ?n" and j: "j < ?n"
    have "?r ! i * ?r ! j = ?r ! j * ?r ! i" by (rule times_fl_commute)
    then show "?M ! i ! j = ?M ! j ! i"
      unfolding entry [OF i j] entry [OF j i] hs [OF i j] by simp
  qed
  then have "symmetric ?n ?M" using mM by (simp add: symmetric_entries)
  then show ?thesis using sr1_unfold [OF c, of \<epsilon>] False by simp
qed

lemma re_Fin [simp]: "re (Fin r) = r"
  by (simp add: re_def)

lemma finite_re: "isfinite x \<Longrightarrow> x = Fin (re x)"
  by (cases x) simp_all

lemma finite_vec_nth: "finite_vec v \<Longrightarrow> i < length v \<Longrightarrow> isfinite (v ! i)"
  by (simp add: finite_vec_def list_all_length)

lemma finite_mat_nth:
  "finite_mat M \<Longrightarrow> is_matrix r c M \<Longrightarrow> i < r \<Longrightarrow> j < c \<Longrightarrow> isfinite (M ! i ! j)"
  by (simp add: finite_mat_def finite_vec_def list_all_length is_matrix_def)

lemma dot_vv_real:
  "length a = length b \<Longrightarrow> finite_vec a \<Longrightarrow> finite_vec b \<Longrightarrow>
   dot_vv a b = Fin (\<Sum>k < length a. re (a ! k) * re (b ! k))"
proof (induction a b rule: list_induct2)
  case Nil
  then show ?case by (simp add: dot_vv_def)
next
  case (Cons x xs y ys)
  have fx: "isfinite x" "isfinite y" and f: "finite_vec xs" "finite_vec ys"
    using Cons.prems by (simp_all add: finite_vec_def)
  have ih: "dot_vv xs ys = Fin (\<Sum>k < length xs. re (xs ! k) * re (ys ! k))"
    using Cons.IH f by simp
  have "dot_vv (x # xs) (y # ys) = x * y + dot_vv xs ys" by (simp add: dot_vv_def)
  also have "\<dots> = Fin (re x * re y + (\<Sum>k < length xs. re (xs ! k) * re (ys ! k)))"
  proof -
    obtain rx ry where "x = Fin rx" "y = Fin ry"
      using fx by (auto simp: isfinite_iff)
    then show ?thesis unfolding ih by simp
  qed
  also have "\<dots> = Fin (\<Sum>k < length (x # xs). re ((x # xs) ! k) * re ((y # ys) ! k))"
    by (simp del: sum.lessThan_Suc add: sum.lessThan_Suc_shift)
  finally show ?case .
qed

lemma dot_mm_real:
  assumes A: "is_matrix r n A" "finite_mat A" and B: "is_matrix n c B" "finite_mat B"
    and i: "i < r" and j: "j < c"
  shows "dot_mm c A B ! i ! j = Fin (\<Sum>k < n. re (A ! i ! k) * re (B ! k ! j))"
proof -
  have la: "length (A ! i) = n" using A(1) i by (rule is_matrix_row)
  have lc: "length (column B j) = n" using B(1) by (simp add: column_def is_matrix_length)
  have fa: "finite_vec (A ! i)"
    using A i by (simp add: finite_mat_def list_all_length is_matrix_def)
  have fc: "finite_vec (column B j)" using B j by (rule finite_vec_column)
  have "dot_mm c A B ! i ! j = dot_vv (A ! i) (column B j)"
    using i j A(1) by (simp add: dot_mm_def is_matrix_length)
  also have "\<dots> = Fin (\<Sum>k < n. re (A ! i ! k) * re (column B j ! k))"
    using dot_vv_real [of "A ! i" "column B j"] la lc fa fc by simp
  also have "\<dots> = Fin (\<Sum>k < n. re (A ! i ! k) * re (B ! k ! j))"
    using B(1) by (simp add: column_def is_matrix_length)
  finally show ?thesis .
qed


lemma bfgs_formula_symmetric:
  assumes c: "conforming H s y" and sy: "symmetric (length H) H"
    and fH: "finite_mat H" and fs: "finite_vec s" and fy: "finite_vec y" and fr: "isfinite \<rho>"
  shows "symmetric (length H) (bfgs_formula \<rho> H s y)"
proof -
  let ?n = "length H"
  have ls: "length s = ?n" and ly: "length y = ?n" and mH: "is_matrix ?n ?n H"
    using c by (simp_all add: conforming_def)
  obtain q where q: "\<rho> = Fin q" using fr by (auto simp: isfinite_iff)
  define sv where "sv i = re (s ! i)" for i
  define yv where "yv i = re (y ! i)" for i
  define h where "h i j = re (H ! i ! j)" for i j
  define p where "p i j = (if i = j then 1 else 0) - q * (sv i * yv j)" for i j :: nat
  have s_nth: "\<And>i. i < ?n \<Longrightarrow> s ! i = Fin (sv i)"
    unfolding sv_def using fs ls by (intro finite_re finite_vec_nth) simp_all
  have y_nth: "\<And>i. i < ?n \<Longrightarrow> y ! i = Fin (yv i)"
    unfolding yv_def using fy ly by (intro finite_re finite_vec_nth) simp_all
  have hsym: "\<And>i j. i < ?n \<Longrightarrow> j < ?n \<Longrightarrow> h i j = h j i"
    unfolding h_def using sy by (simp add: symmetric_entries)
  let ?P1 = "mat_sub (eye ?n) (scal_times_mat \<rho> (outer s y))"
  let ?P2 = "mat_sub (eye ?n) (scal_times_mat \<rho> (outer y s))"
  let ?P3 = "scal_times_mat \<rho> (outer s s)"
  have sc: "\<And>A. finite_mat A \<Longrightarrow> finite_mat (scal_times_mat \<rho> A)"
    unfolding scal_times_mat_def using fr by (intro finite_mat_map) (simp_all add: isfinite_ops)
  have o1: "is_matrix ?n ?n (outer s y)" and o2: "is_matrix ?n ?n (outer y s)"
    and o3: "is_matrix ?n ?n (outer s s)"
    using is_matrix_outer [of s y] is_matrix_outer [of y s] is_matrix_outer [of s s] ls ly
    by simp_all
  have so1: "is_matrix ?n ?n (scal_times_mat \<rho> (outer s y))"
    and so2: "is_matrix ?n ?n (scal_times_mat \<rho> (outer y s))"
    and m3: "is_matrix ?n ?n ?P3"
    unfolding scal_times_mat_def using o1 o2 o3 by (simp_all add: is_matrix_map)
  have m1: "is_matrix ?n ?n ?P1" and m2: "is_matrix ?n ?n ?P2"
    unfolding mat_sub_def using is_matrix_eye so1 so2 by (simp_all add: is_matrix_zip)
  have f1: "finite_mat ?P1" and f2: "finite_mat ?P2" and f3: "finite_mat ?P3"
    unfolding mat_sub_def
    by (intro finite_mat_zip finite_mat_eye sc finite_mat_outer fs fy isfinite_ops; assumption)+
  have eye_nth: "\<And>i j. i < ?n \<Longrightarrow> j < ?n \<Longrightarrow> eye ?n ! i ! j = Fin (if i = j then 1 else 0)"
    by (simp add: eye_def)
  have p1: "\<And>i j. i < ?n \<Longrightarrow> j < ?n \<Longrightarrow> ?P1 ! i ! j = Fin (p i j)"
  proof -
    fix i j assume i: "i < ?n" and j: "j < ?n"
    have "scal_times_mat \<rho> (outer s y) ! i ! j = \<rho> * (outer s y ! i ! j)"
      unfolding scal_times_mat_def using o1 i j by (rule mat_map_nth)
    then have a: "scal_times_mat \<rho> (outer s y) ! i ! j = Fin (q * (sv i * yv j))"
      using i j ls ly by (simp add: outer_nth s_nth y_nth q)
    have "?P1 ! i ! j = eye ?n ! i ! j - scal_times_mat \<rho> (outer s y) ! i ! j"
      unfolding mat_sub_def using is_matrix_eye so1 i j by (rule mat_zip_nth)
    then show "?P1 ! i ! j = Fin (p i j)"
      unfolding a eye_nth [OF i j] p_def by simp
  qed
  have p2: "\<And>i j. i < ?n \<Longrightarrow> j < ?n \<Longrightarrow> ?P2 ! i ! j = Fin (p j i)"
  proof -
    fix i j assume i: "i < ?n" and j: "j < ?n"
    have "scal_times_mat \<rho> (outer y s) ! i ! j = \<rho> * (outer y s ! i ! j)"
      unfolding scal_times_mat_def using o2 i j by (rule mat_map_nth)
    then have a: "scal_times_mat \<rho> (outer y s) ! i ! j = Fin (q * (sv j * yv i))"
      using i j ls ly by (simp add: outer_nth s_nth y_nth q mult.commute)
    have "?P2 ! i ! j = eye ?n ! i ! j - scal_times_mat \<rho> (outer y s) ! i ! j"
      unfolding mat_sub_def using is_matrix_eye so2 i j by (rule mat_zip_nth)
    then show "?P2 ! i ! j = Fin (p j i)"
      unfolding a eye_nth [OF i j] p_def by auto
  qed
  have p3: "\<And>i j. i < ?n \<Longrightarrow> j < ?n \<Longrightarrow> ?P3 ! i ! j = Fin (q * (sv i * sv j))"
  proof -
    fix i j assume i: "i < ?n" and j: "j < ?n"
    have "?P3 ! i ! j = \<rho> * (outer s s ! i ! j)"
      unfolding scal_times_mat_def using o3 i j by (rule mat_map_nth)
    then show "?P3 ! i ! j = Fin (q * (sv i * sv j))"
      using i j ls by (simp add: outer_nth s_nth q)
  qed
  let ?Q = "dot_mm ?n ?P1 H"
  have mQ: "is_matrix ?n ?n ?Q" using is_matrix_dot_mm [of ?P1 ?n H] m1
    by (simp add: is_matrix_length)
  have fQ: "finite_mat ?Q" using f1 fH mH by (rule finite_mat_dot_mm)
  have qe: "\<And>i k. i < ?n \<Longrightarrow> k < ?n \<Longrightarrow> ?Q ! i ! k = Fin (\<Sum>l < ?n. p i l * h l k)"
  proof -
    fix i k assume i: "i < ?n" and k: "k < ?n"
    have "?Q ! i ! k = Fin (\<Sum>l < ?n. re (?P1 ! i ! l) * re (H ! l ! k))"
      using m1 f1 mH fH i k by (rule dot_mm_real)
    also have "(\<Sum>l < ?n. re (?P1 ! i ! l) * re (H ! l ! k)) = (\<Sum>l < ?n. p i l * h l k)"
      by (intro sum.cong refl) (simp add: p1 i h_def)
    finally show "?Q ! i ! k = Fin (\<Sum>l < ?n. p i l * h l k)" .
  qed
  let ?R = "dot_mm ?n ?Q ?P2"
  have mR: "is_matrix ?n ?n ?R" using is_matrix_dot_mm [of ?Q ?n ?P2] mQ
    by (simp add: is_matrix_length)
  have re': "\<And>i j. i < ?n \<Longrightarrow> j < ?n \<Longrightarrow>
      ?R ! i ! j = Fin (\<Sum>k < ?n. \<Sum>l < ?n. p i l * h l k * p j k)"
  proof -
    fix i j assume i: "i < ?n" and j: "j < ?n"
    have "?R ! i ! j = Fin (\<Sum>k < ?n. re (?Q ! i ! k) * re (?P2 ! k ! j))"
      using mQ fQ m2 f2 i j by (rule dot_mm_real)
    also have "(\<Sum>k < ?n. re (?Q ! i ! k) * re (?P2 ! k ! j))
        = (\<Sum>k < ?n. (\<Sum>l < ?n. p i l * h l k) * p j k)"
      by (intro sum.cong refl) (simp add: qe p2 i j)
    also have "\<dots> = (\<Sum>k < ?n. \<Sum>l < ?n. p i l * h l k * p j k)"
      by (simp add: sum_distrib_right)
    finally show "?R ! i ! j = Fin (\<Sum>k < ?n. \<Sum>l < ?n. p i l * h l k * p j k)" .
  qed
  let ?M = "mat_add ?R ?P3"
  have mM: "is_matrix ?n ?n ?M" unfolding mat_add_def using mR m3 by (rule is_matrix_zip)
  have me: "\<And>i j. i < ?n \<Longrightarrow> j < ?n \<Longrightarrow>
      ?M ! i ! j = Fin ((\<Sum>k < ?n. \<Sum>l < ?n. p i l * h l k * p j k) + q * (sv i * sv j))"
  proof -
    fix i j assume i: "i < ?n" and j: "j < ?n"
    have "?M ! i ! j = ?R ! i ! j + ?P3 ! i ! j"
      unfolding mat_add_def using mR m3 i j by (rule mat_zip_nth)
    then show "?M ! i ! j = Fin ((\<Sum>k < ?n. \<Sum>l < ?n. p i l * h l k * p j k) + q * (sv i * sv j))"
      unfolding re' [OF i j] p3 [OF i j] by simp
  qed
  have "\<forall>i < ?n. \<forall>j < ?n. ?M ! i ! j = ?M ! j ! i"
  proof (intro allI impI)
    fix i j assume i: "i < ?n" and j: "j < ?n"
    have "(\<Sum>k < ?n. \<Sum>l < ?n. p j l * h l k * p i k)
        = (\<Sum>l < ?n. \<Sum>k < ?n. p j l * h l k * p i k)"
      by (rule sum.swap)
    also have "\<dots> = (\<Sum>l < ?n. \<Sum>k < ?n. p i k * h k l * p j l)"
      by (intro sum.cong refl) (simp add: hsym mult_ac)
    finally have "(\<Sum>k < ?n. \<Sum>l < ?n. p j l * h l k * p i k)
        = (\<Sum>k < ?n. \<Sum>l < ?n. p i l * h l k * p j k)" .
    then show "?M ! i ! j = ?M ! j ! i"
      unfolding me [OF i j] me [OF j i] by (simp add: mult.commute)
  qed
  then have "symmetric ?n ?M" using mM by (simp add: symmetric_entries)
  then show ?thesis by (simp add: bfgs_formula_def Let_def)
qed

lemma bfgs_symmetric:
  assumes "conforming H s y" "symmetric (length H) H" "finite_mat H" "finite_vec s"
    "finite_vec y" "isfinite maxrho"
  shows "\<exists>M. bfgs maxrho H s y = Inr M \<and> symmetric (length H) M"
  using bfgs_unfold [OF assms(1), of maxrho]
    bfgs_formula_symmetric [OF assms(1,2,3,4,5) bfgs_rho_finite [OF assms(4,5,6)]]
  by simp

end
